theory Spec2Isabelle
  imports Complex_Main "HOL-Library.Sublist" "HOL-Library.AList"
begin

section \<open>Shallow embedding of \<open>robust_lda.py\<close> (class \<open>RobustTopics\<close>)\<close>

text \<open>
  Conventions of the embedding.
  \<^item> Every Python exception is a value of \<open>error\<close>; a function that can raise returns
    \<open>error + 'a\<close> with \<open>Inl\<close> the exception.
  \<^item> A numpy \<open>float64\<close> is idealised as \<open>npfloat\<close>: a finite value is a real number
    (no rounding), every non-finite result (nan, inf) is collapsed into \<open>NaN\<close>.
  \<^item> A Python \<open>set\<close> that is only measured (\<open>_jaccard_similarity\<close>) is a HOL set. Where
    the source iterates over a set (\<open>list(vocab)\<close>, the \<open>join\<close> in \<open>analyse_sample\<close>) the
    set is kept as a list without repetition in first-insertion order, one of the orders
    Python may choose; the properties below speak about the elements, not their order.
  \<^item> \<open>print\<close> calls that only report progress are left out.
\<close>

subsection \<open>Errors and the error monad\<close>

datatype error =
    IndexError | KeyError | TypeError | ValueError | AttributeError
  | ZeroDivisionError | AxisError | Raised string

definition bind_e :: "error + 'a \<Rightarrow> ('a \<Rightarrow> error + 'b) \<Rightarrow> error + 'b" where
  "bind_e m f = (case m of Inl e \<Rightarrow> Inl e | Inr x \<Rightarrow> f x)"

fun mapM_e :: "('a \<Rightarrow> error + 'b) \<Rightarrow> 'a list \<Rightarrow> error + 'b list" where
  "mapM_e f [] = Inr []"
| "mapM_e f (x # xs) =
     bind_e (f x) (\<lambda>y. bind_e (mapM_e f xs) (\<lambda>ys. Inr (y # ys)))"

definition nth_e :: "'a list \<Rightarrow> nat \<Rightarrow> error + 'a" where
  \<comment> \<open>\<open>xs[i]\<close> for a non-negative index: IndexError out of range.\<close>
  "nth_e xs i = (if i < length xs then Inr (xs ! i) else Inl IndexError)"

fun foldM_e :: "('a \<Rightarrow> 's \<Rightarrow> error + 's) \<Rightarrow> 'a list \<Rightarrow> 's \<Rightarrow> error + 's" where
  \<comment> \<open>a \<open>for\<close> loop over a list that updates a local and may raise\<close>
  "foldM_e f [] s = Inr s"
| "foldM_e f (x # xs) s = bind_e (f x s) (foldM_e f xs)"

definition py_index :: "'a list \<Rightarrow> int \<Rightarrow> error + 'a" where
  \<comment> \<open>\<open>xs[i]\<close> for a Python integer: a negative index counts from the end.\<close>
  "py_index xs i =
     (if 0 \<le> i \<and> i < int (length xs) then Inr (xs ! nat i)
      else if i < 0 \<and> - int (length xs) \<le> i then Inr (xs ! nat (int (length xs) + i))
      else Inl IndexError)"

subsection \<open>Floats\<close>

datatype npfloat = Num real | NaN

subsection \<open>\<open>_jaccard_similarity\<close> (lines 401-405)\<close>

definition jaccard_similarity :: "'a list \<Rightarrow> 'a list \<Rightarrow> error + npfloat" where
  "jaccard_similarity a b =
     (let sa = set a; sb = set b in
      if card (sa \<union> sb) = 0 then Inl ZeroDivisionError
      else Inr (Num (real (card (sa \<inter> sb)) / real (card (sa \<union> sb)))))"

subsection \<open>\<open>_terms_to_ranking\<close> (lines 427-435)\<close>

fun list_index :: "'a list \<Rightarrow> 'a \<Rightarrow> nat" where
  \<comment> \<open>\<open>terms.index(e)\<close>: position of the first occurrence. The source calls it only
      under \<open>e in terms\<close>, where it cannot raise; absent elements give the length.\<close>
  "list_index [] e = 0"
| "list_index (x # xs) e = (if x = e then 0 else Suc (list_index xs e))"

fun ranking_loop :: "'a list \<Rightarrow> nat \<Rightarrow> nat list \<Rightarrow> 'a list \<Rightarrow> nat list" where
  \<comment> \<open>the \<open>for e in vocab\<close> loop; \<open>n\<close> is \<open>len(vocab)\<close>, \<open>vec\<close> the list built so far\<close>
  "ranking_loop terms n vec [] = vec"
| "ranking_loop terms n vec (e # es) =
     (if e \<in> set terms then ranking_loop terms n (vec @ [list_index terms e]) es
      else ranking_loop terms n (vec @ [n]) es)"

definition terms_to_ranking :: "'a list \<Rightarrow> 'a list \<Rightarrow> nat list" where
  "terms_to_ranking terms vocab = ranking_loop terms (length vocab) [] vocab"

subsection \<open>Parameter spaces and \<open>_compute_param_combinations\<close> (lines 209-239)\<close>

text \<open>
  A parameter description is the dict \<open>{"type": .., "mode": .., "values": ..}\<close>; a parameter
  space is a dict from names to descriptions, kept as an association list in insertion order
  (the keys of a dict are distinct). Iterating over the keys \<open>x\<close> and reading \<open>params[x]\<close> is
  iterating over the items. The mode of a description is a string object: \<open>p_mode\<close> is its
  value and \<open>p_literal\<close> tells whether the object is the interned literal, as it is when the
  description is written out in source code, or a string built at run time (read from a
  file, joined from parts). The comparisons \<open>== "range"\<close> and \<open>== "list"\<close> compare values;
  \<open>is "fixed"\<close> and \<open>is not "fixed"\<close> compare object identity with the interned literal.
  A sampled configuration is a dict from names to values, also kept as an association list:
  \<open>sample[name] = v\<close> is \<open>AList.update\<close>.
\<close>

datatype ptype = TInt | TFloat | TStr

datatype pyval = VInt int | VFloat real | VStr string | VNone | VList "pyval list"

record param =
  p_type :: ptype
  p_mode :: string
  p_literal :: bool
  p_values :: pyval

type_synonym param_space = "(string \<times> param) list"
type_synonym config = "(string \<times> pyval) list"

fun num_of :: "pyval \<Rightarrow> real option" where
  "num_of (VInt i) = Some (real_of_int i)"
| "num_of (VFloat r) = Some r"
| "num_of _ = None"

fun subscript :: "pyval \<Rightarrow> int \<Rightarrow> error + pyval" where
  \<comment> \<open>\<open>v[i]\<close>: lists and strings are subscriptable, numbers and None are not\<close>
  "subscript (VList xs) i = py_index xs i"
| "subscript (VStr s) i = bind_e (py_index s i) (\<lambda>c. Inr (VStr [c]))"
| "subscript _ i = Inl TypeError"

fun py_len :: "pyval \<Rightarrow> error + nat" where
  "py_len (VList xs) = Inr (length xs)"
| "py_len (VStr s) = Inr (length s)"
| "py_len _ = Inl TypeError"

definition py_int :: "real \<Rightarrow> int" where
  \<comment> \<open>\<open>int(x)\<close> on a float truncates towards zero\<close>
  "py_int x = (if 0 \<le> x then \<lfloor>x\<rfloor> else \<lceil>x\<rceil>)"

definition range_to_value :: "pyval \<Rightarrow> real \<Rightarrow> ptype \<Rightarrow> error + pyval" where
  "range_to_value p_range sampling pt =
     bind_e (subscript p_range 0) (\<lambda>lo.
     bind_e (subscript p_range 1) (\<lambda>hi.
       case (num_of lo, num_of hi) of
         (Some a, Some b) \<Rightarrow>
           (let v = a + (b - a) * sampling
            in Inr (if pt = TInt then VInt (py_int v) else VFloat v))
       | _ \<Rightarrow> Inl TypeError))"

definition list_to_value :: "pyval \<Rightarrow> real \<Rightarrow> ptype \<Rightarrow> error + pyval" where
  "list_to_value p_vals sampling pt =
     bind_e (py_len p_vals) (\<lambda>n.
       subscript p_vals (min \<lfloor>sampling * real n\<rfloor> (int n - 1)))"

definition param_to_value :: "param \<Rightarrow> real \<Rightarrow> error + pyval" where
  \<comment> \<open>no branch for any other mode: the function falls off its end and returns None\<close>
  "param_to_value p sampling =
     (if p_mode p = ''range'' then range_to_value (p_values p) sampling (p_type p)
      else if p_mode p = ''list'' then list_to_value (p_values p) sampling (p_type p)
      else Inr VNone)"

definition is_fixed :: "param \<Rightarrow> bool" where
  \<comment> \<open>\<open>param["mode"] is "fixed"\<close>\<close>
  "is_fixed p = (p_mode p = ''fixed'' \<and> p_literal p)"

definition make_sample ::
  "param_space \<Rightarrow> param_space \<Rightarrow> real list \<Rightarrow> error + config" where
  \<comment> \<open>the body of the \<open>for vec in ...\<close> loop: one configuration from one point\<close>
  "make_sample changing_params fixed_params vec =
     bind_e
       (foldM_e (\<lambda>(i, name, p) sample.
            bind_e (nth_e vec i) (\<lambda>c.
            bind_e (param_to_value p c) (\<lambda>v. Inr (AList.update name v sample))))
          (zip [0 ..< length changing_params] changing_params) [])
       (\<lambda>sample.
          Inr (fold (\<lambda>(name, p) sample. AList.update name (p_values p) sample)
                 fixed_params sample))"

definition compute_param_combinations ::
  "(nat \<Rightarrow> nat \<Rightarrow> error + real list list) \<Rightarrow> param_space \<Rightarrow> nat \<Rightarrow> error + config list" where
  \<comment> \<open>\<open>sobol\<close> is the external \<open>sobol_seq.i4_sobol_generate(dim, n)\<close>: the rows of the
      array it returns, or the exception it raises\<close>
  "compute_param_combinations sobol params n_samples =
     (let changing_params = filter (\<lambda>(x, p). \<not> is_fixed p) params;
          fixed_params = filter (\<lambda>(x, p). is_fixed p) params
      in bind_e (sobol (length params) n_samples)
           (mapM_e (make_sample changing_params fixed_params)))"


subsection \<open>Well-formed parameter spaces and sampling outcomes\<close>

text \<open>
  The predicates the sampling properties are stated with. A parameter description is valid
  when its mode is one of the three the sampler knows and its values have the shape of that
  mode: a range is a pair of numbers \<open>[min, max]\<close> with \<open>min \<le> max\<close> (integers when the
  declared type is \<open>int\<close>), a list is non-empty. \<open>unit_points\<close> is the contract of the external
  sequence generator: \<open>n\<close> points of \<open>[0,1]\<^sup>d\<close>.
\<close>

fun is_VInt :: "pyval \<Rightarrow> bool" where
  "is_VInt (VInt i) = True"
| "is_VInt v = False"

fun valid_range :: "ptype \<Rightarrow> pyval \<Rightarrow> bool" where
  "valid_range t (VList [lo, hi]) =
     (case (num_of lo, num_of hi) of
        (Some a, Some b) \<Rightarrow> a \<le> b \<and> (t \<noteq> TInt \<or> (is_VInt lo \<and> is_VInt hi))
      | _ \<Rightarrow> False)"
| "valid_range t v = False"

fun valid_list :: "pyval \<Rightarrow> bool" where
  "valid_list (VList xs) = (xs \<noteq> [])"
| "valid_list v = False"

definition valid_param :: "param \<Rightarrow> bool" where
  "valid_param p =
     (p_mode p = ''fixed'' \<or>
      (p_mode p = ''range'' \<and> valid_range (p_type p) (p_values p)) \<or>
      (p_mode p = ''list'' \<and> valid_list (p_values p)))"

fun in_range :: "pyval \<Rightarrow> pyval \<Rightarrow> bool" where
  "in_range (VList [lo, hi]) v =
     (case (num_of lo, num_of hi, num_of v) of
        (Some a, Some b, Some r) \<Rightarrow> a \<le> r \<and> r \<le> b
      | _ \<Rightarrow> False)"
| "in_range w v = False"

fun in_list :: "pyval \<Rightarrow> pyval \<Rightarrow> bool" where
  "in_list (VList xs) v = (v \<in> set xs)"
| "in_list w v = False"

definition unit_points :: "(nat \<Rightarrow> nat \<Rightarrow> error + real list list) \<Rightarrow> nat \<Rightarrow> nat \<Rightarrow> bool" where
  "unit_points sobol d n =
     (case sobol d n of
        Inl e \<Rightarrow> False
      | Inr pts \<Rightarrow> length pts = n \<and>
          list_all (\<lambda>vec. length vec = d \<and> list_all (\<lambda>s. 0 \<le> s \<and> s \<le> 1) vec) pts)"

definition known_mode :: "param \<Rightarrow> bool" where
  "known_mode p = (p_mode p = ''fixed'' \<or> p_mode p = ''range'' \<or> p_mode p = ''list'')"

definition sampled_ok :: "param \<Rightarrow> pyval \<Rightarrow> bool" where
  "sampled_ok p v =
     (if is_fixed p then v = p_values p
      else if p_mode p = ''range'' then in_range (p_values p) v
      else if p_mode p = ''list'' then in_list (p_values p) v
      else v = VNone)"


text \<open>Example inputs used to instantiate the properties below.\<close>

definition ex_space :: param_space where
  "ex_space =
     [(''n_components'', \<lparr>p_type = TInt, p_mode = ''range'', p_literal = True, p_values = VList [VInt 5, VInt 50]\<rparr>),
      (''init'', \<lparr>p_type = TStr, p_mode = ''list'', p_literal = True,
          p_values = VList [VStr ''random'', VStr ''nndsvd'', VStr ''nndsvda'', VNone]\<rparr>),
      (''solver'', \<lparr>p_type = TStr, p_mode = ''fixed'', p_literal = True, p_values = VStr ''mu''\<rparr>)]"

definition ex_sobol :: "nat \<Rightarrow> nat \<Rightarrow> error + real list list" where
  "ex_sobol d n =
     (if d = 3 \<and> n = 2 then Inr [[1/2, 1/2, 1/2], [3/4, 1/4, 3/4]]
      else if d = 1 \<and> n = 1 then Inr [[1/2]]
      else Inl (Raised ''unsupported''))"

definition ex_runtime_space :: param_space where
  \<comment> \<open>a fixed parameter whose mode string was built at run time, for instance
      \<open>{"solver": {"type": str, "mode": "".join(["fix", "ed"]), "values": "mu"}}\<close>\<close>
  "ex_runtime_space =
     [(''solver'', \<lparr>p_type = TStr, p_mode = ''fixed'', p_literal = False, p_values = VStr ''mu''\<rparr>)]"

definition literal_modes :: "param_space \<Rightarrow> bool" where
  \<comment> \<open>every mode string \<open>fixed\<close> of the space is the interned literal\<close>
  "literal_modes space = list_all (\<lambda>(x, p). p_mode p \<noteq> ''fixed'' \<or> p_literal p) space"

definition ex_odd_space :: param_space where
  "ex_odd_space =
     [(''alpha'', \<lparr>p_type = TFloat, p_mode = ''uniform'', p_literal = True, p_values = VList [VInt 0, VInt 1]\<rparr>)]"

subsection \<open>Float arithmetic and numpy reductions\<close>

text \<open>
  Arithmetic on \<open>npfloat\<close>: \<open>NaN\<close> is absorbing, division by zero gives \<open>NaN\<close> (numpy warns and
  returns a non-finite value, it does not raise). The reductions follow numpy: the mean of an
  empty slice is \<open>nan\<close> (with a warning), the minimum or maximum of a zero-size slice raises
  \<open>ValueError\<close>, and a reduction along axis 1 of a one-dimensional
  array raises \<open>AxisError\<close>. A two-dimensional array built by \<open>np.array\<close> from a list of rows
  is the list of its rows; from the empty list it is the one-dimensional empty array.
\<close>

fun the_num :: "npfloat \<Rightarrow> real option" where
  "the_num (Num r) = Some r"
| "the_num NaN = None"

definition fop :: "(real \<Rightarrow> real \<Rightarrow> real) \<Rightarrow> npfloat \<Rightarrow> npfloat \<Rightarrow> npfloat" where
  "fop f a b = (case (a, b) of (Num x, Num y) \<Rightarrow> Num (f x y) | _ \<Rightarrow> NaN)"

definition fdiv :: "npfloat \<Rightarrow> npfloat \<Rightarrow> npfloat" where
  "fdiv a b = (case (a, b) of (Num x, Num y) \<Rightarrow> (if y = 0 then NaN else Num (x / y)) | _ \<Rightarrow> NaN)"

definition np_mean :: "npfloat list \<Rightarrow> npfloat" where
  "np_mean xs =
     (case those (map the_num xs) of
        None \<Rightarrow> NaN
      | Some rs \<Rightarrow> if rs = [] then NaN else Num (sum_list rs / real (length rs)))"

definition np_min :: "npfloat list \<Rightarrow> error + npfloat" where
  "np_min xs =
     (if xs = [] then Inl ValueError
      else case those (map the_num xs) of
             None \<Rightarrow> Inr NaN
           | Some rs \<Rightarrow> Inr (Num (fold min (tl rs) (hd rs))))"

definition np_max :: "npfloat list \<Rightarrow> error + npfloat" where
  "np_max xs =
     (if xs = [] then Inl ValueError
      else case those (map the_num xs) of
             None \<Rightarrow> Inr NaN
           | Some rs \<Rightarrow> Inr (Num (fold max (tl rs) (hd rs))))"

definition mean_all :: "npfloat list list \<Rightarrow> npfloat" where
  \<comment> \<open>\<open>A.mean()\<close>\<close>
  "mean_all A = np_mean (concat A)"

definition mean_axis1 :: "npfloat list list \<Rightarrow> error + npfloat list" where
  \<comment> \<open>\<open>A.mean(axis=1)\<close>\<close>
  "mean_axis1 A = (if A = [] then Inl AxisError else Inr (map np_mean A))"

definition min_axis1 :: "npfloat list list \<Rightarrow> error + npfloat list" where
  "min_axis1 A = (if A = [] then Inl AxisError else mapM_e np_min A)"

definition max_axis1 :: "npfloat list list \<Rightarrow> error + npfloat list" where
  "max_axis1 A = (if A = [] then Inl AxisError else mapM_e np_max A)"

fun rect3 :: "'a list list list \<Rightarrow> bool" where
  \<comment> \<open>a list of lists of lists is the nesting of a three-dimensional array\<close>
  "rect3 [] = True"
| "rect3 (r0 # rs) =
     (list_all (\<lambda>r. length r = length r0) rs \<and>
      (case r0 of
         [] \<Rightarrow> True
       | t0 # ts \<Rightarrow> list_all (list_all (\<lambda>t. length t = length t0)) (r0 # rs)))"

definition np_array3 :: "'a list list list \<Rightarrow> error + 'a list list list" where
  \<comment> \<open>\<open>np.array(xs)\<close> on a nested list: ragged input is rejected (\<open>ValueError\<close>)\<close>
  "np_array3 xs = (if rect3 xs then Inr xs else Inl ValueError)"

definition slice_topic :: "'a list list list \<Rightarrow> nat \<Rightarrow> error + 'a list list" where
  \<comment> \<open>\<open>arr[:, topic, :]\<close>\<close>
  "slice_topic arr topic = mapM_e (\<lambda>run. nth_e run topic) arr"

fun pairs :: "'a list \<Rightarrow> ('a \<times> 'a) list" where
  "pairs [] = []"
| "pairs (x # xs) = map (Pair x) xs @ pairs xs"

definition pdist :: "'a list \<Rightarrow> ('a \<Rightarrow> 'a \<Rightarrow> error + npfloat) \<Rightarrow> error + npfloat list" where
  \<comment> \<open>\<open>scipy.spatial.distance.pdist(X, metric)\<close> with a callable metric: the metric on every
      pair of rows \<open>i < j\<close>, in row order; one row or none gives the empty array\<close>
  "pdist X metric = mapM_e (\<lambda>(u, v). metric u v) (pairs X)"

subsection \<open>Trained models and the external numerical library\<close>

text \<open>
  A trained artifact exposes \<open>n_components\<close> and the matrix \<open>components_\<close> (one row of term
  weights per topic; the field \<open>components\<close> below). The functions of numpy and scipy.stats that the source calls on
  vectors are parameters of the embedding: \<open>argsort\<close> (ties in an unspecified order), the
  four measures, each of which may raise, and the standard deviation of one row (a square
  root; it does not raise, an empty row gives \<open>nan\<close>).
\<close>

record model =
  n_components :: nat
  components :: "real list list"

record numlib =
  argsort :: "real list \<Rightarrow> nat list"
  kendalltau :: "nat list \<Rightarrow> nat list \<Rightarrow> error + npfloat"
  spearmanr :: "nat list \<Rightarrow> nat list \<Rightarrow> error + npfloat"
  jensenshannon :: "npfloat list \<Rightarrow> npfloat list \<Rightarrow> error + npfloat"
  wasserstein_distance :: "npfloat list \<Rightarrow> npfloat list \<Rightarrow> error + npfloat"
  np_std :: "npfloat list \<Rightarrow> npfloat"

definition std_axis1 :: "numlib \<Rightarrow> npfloat list list \<Rightarrow> error + npfloat list" where
  \<comment> \<open>\<open>A.std(axis=1)\<close>\<close>
  "std_axis1 E A = (if A = [] then Inl AxisError else Inr (map (np_std E) A))"

definition kendalls :: "numlib \<Rightarrow> nat list \<Rightarrow> nat list \<Rightarrow> error + npfloat" where
  "kendalls E a b = kendalltau E a b"

definition spear :: "numlib \<Rightarrow> nat list \<Rightarrow> nat list \<Rightarrow> error + npfloat" where
  "spear E a b = spearmanr E a b"

definition jenson_similarity :: "numlib \<Rightarrow> npfloat list \<Rightarrow> npfloat list \<Rightarrow> error + npfloat" where
  "jenson_similarity E a b =
     bind_e (jensenshannon E a b) (\<lambda>distance. Inr (fop (-) (Num 1) distance))"

definition wasserstein_similarity ::
  "numlib \<Rightarrow> npfloat list \<Rightarrow> npfloat list \<Rightarrow> error + npfloat" where
  "wasserstein_similarity E a b =
     bind_e (wasserstein_distance E a b) (\<lambda>distance. Inr (fop (-) (Num 1) distance))"

definition top_slice :: "'a list \<Rightarrow> int \<Rightarrow> 'a list" where
  \<comment> \<open>the slice \<open>xs[:-n - 1:-1]\<close>: the last \<open>n\<close> elements in reverse; for a negative \<open>n\<close> all
      but the first \<open>-n\<close> elements in reverse\<close>
  "top_slice xs n =
     (if 0 \<le> n then take (nat n) (rev xs) else take (nat (int (length xs) + n)) (rev xs))"

definition get_top_terms :: "numlib \<Rightarrow> model \<Rightarrow> int \<Rightarrow> nat list list" where
  "get_top_terms E m n_terms = map (\<lambda>topic. top_slice (argsort E topic) n_terms) (components m)"

definition normalize_rows :: "real list list \<Rightarrow> npfloat list list" where
  \<comment> \<open>\<open>components_ / components_.sum(axis=1)[:, np.newaxis]\<close>\<close>
  "normalize_rows A = map (\<lambda>row. map (\<lambda>x. fdiv (Num x) (Num (sum_list row))) row) A"

subsection \<open>The object state\<close>

text \<open>
  \<open>settings\<close> is the dict \<open>model_informations\<close> of one model family, with one field per
  key. \<open>stability_report\<close> and \<open>full_report\<close> are the dicts \<open>report\<close> and \<open>report_full\<close>; their
  fields carry the prefix \<open>r_\<close> and \<open>f_\<close> (the key \<open>"kendallstau"\<close> of \<open>report\<close> is
  \<open>r_kendallstau\<close>, the key \<open>"kendalltau"\<close> of \<open>report_full\<close> is \<open>f_kendalltau\<close>), \<open>stats\<close> is
  the inner dict with the keys \<open>mean\<close>, \<open>std\<close>, \<open>min\<close>, \<open>max\<close>.
  \<open>robust_topics\<close> is the object: \<open>self.models\<close> is a dict in insertion order; the attributes
  \<open>rank_metric\<close> and \<open>distribution_metric\<close>, which \<open>rank_models\<close> reads, are \<open>None\<close> while
  the object has no such attribute.
\<close>

record stability_report =
  r_model :: string
  r_sample_id :: nat
  r_n_topics :: nat
  r_params :: config
  r_jaccard :: npfloat
  r_kendallstau :: npfloat
  r_spearman :: npfloat
  r_jensenshannon :: npfloat
  r_wasserstein :: npfloat

record stats =
  st_mean :: "npfloat list"
  st_std :: "npfloat list"
  st_min :: "npfloat list"
  st_max :: "npfloat list"

record full_report =
  f_model :: string
  f_sample_id :: nat
  f_n_topics :: nat
  f_params :: config
  f_jaccard :: stats
  f_kendalltau :: stats
  f_spearman :: stats
  f_jensenshannon :: stats
  f_wasserstein :: stats

record 'd settings =
  n_samples :: nat
  data :: 'd
  samples :: "model list list"
  topic_terms :: "nat list list list list"
  report :: "stability_report list"
  report_full :: "full_report list"
  params :: param_space
  sampling :: "config list"

record 'd robust_topics =
  n_iterations :: int
  n_relevant_top_words :: int
  models :: "(string \<times> 'd settings) list"
  rank_metric :: "string option"
  distribution_metric :: "string option"

definition init :: "int \<Rightarrow> int \<Rightarrow> 'd robust_topics" where
  \<comment> \<open>\<open>__init__\<close>: sets \<open>n_iterations\<close>, \<open>n_relevant_top_words\<close> and \<open>models\<close> only\<close>
  "init n_it n_top =
     \<lparr>n_iterations = n_it, n_relevant_top_words = n_top, models = [],
      rank_metric = None, distribution_metric = None\<rparr>"

subsection \<open>\<open>load_sklearn_lda_data\<close> and \<open>load_sklearn_nmf_data\<close> (lines 137-207)\<close>

definition lda_params :: "string \<Rightarrow> param_space option \<Rightarrow> error + param_space" where
  \<comment> \<open>the three \<open>if setup == ..\<close> statements; with another \<open>setup\<close> the key \<open>"params"\<close> is
      never set and reading it raises \<open>KeyError\<close>; \<open>custom_params=None\<close> is not iterable\<close>
  "lda_params setup custom_params =
     (if setup = ''simple'' then Inr
        [(''n_components'', \<lparr>p_type = TInt, p_mode = ''range'', p_literal = True, p_values = VList [VInt 5, VInt 50]\<rparr>)]
      else if setup = ''complex'' then Inr
        [(''n_components'', \<lparr>p_type = TInt, p_mode = ''range'', p_literal = True, p_values = VList [VInt 5, VInt 50]\<rparr>),
         (''learning_decayfloat'',
            \<lparr>p_type = TFloat, p_mode = ''range'', p_literal = True, p_values = VList [VFloat (51 / 100), VInt 1]\<rparr>)]
      else if setup = ''custom'' then
        (case custom_params of None \<Rightarrow> Inl TypeError | Some ps \<Rightarrow> Inr ps)
      else Inl KeyError)"

definition nmf_params :: "string \<Rightarrow> param_space option \<Rightarrow> error + param_space" where
  "nmf_params setup custom_params =
     (if setup = ''simple'' then Inr
        [(''n_components'', \<lparr>p_type = TInt, p_mode = ''range'', p_literal = True, p_values = VList [VInt 5, VInt 50]\<rparr>),
         (''init'', \<lparr>p_type = TStr, p_mode = ''fixed'', p_literal = True, p_values = VStr ''random''\<rparr>)]
      else if setup = ''complex'' then Inr
        [(''n_components'', \<lparr>p_type = TInt, p_mode = ''range'', p_literal = True, p_values = VList [VInt 5, VInt 50]\<rparr>),
         (''init'', \<lparr>p_type = TStr, p_mode = ''list'', p_literal = True,
            p_values = VList [VStr ''random'', VStr ''nndsvd'', VStr ''nndsvda'', VNone]\<rparr>),
         (''solver'', \<lparr>p_type = TStr, p_mode = ''fixed'', p_literal = True, p_values = VStr ''mu''\<rparr>),
         (''beta_loss'', \<lparr>p_type = TStr, p_mode = ''list'', p_literal = True,
            p_values = VList [VStr ''frobenius'', VStr ''kullback-leibler'']\<rparr>)]
      else if setup = ''custom'' then
        (case custom_params of None \<Rightarrow> Inl TypeError | Some ps \<Rightarrow> Inr ps)
      else Inl KeyError)"

definition load_data ::
  "string \<Rightarrow> (error + param_space) \<Rightarrow> (nat \<Rightarrow> nat \<Rightarrow> error + real list list) \<Rightarrow>
   'd \<Rightarrow> nat \<Rightarrow> 'd robust_topics \<Rightarrow> error + 'd robust_topics" where
  \<comment> \<open>the common body of the two loaders: \<open>model_informations\<close> is local until the last
      statement stores it under the family's name\<close>
  "load_data name preset sobol X n self =
     bind_e preset (\<lambda>ps.
     bind_e (compute_param_combinations sobol ps n) (\<lambda>seq.
       Inr (self\<lparr>models := AList.update name
              \<lparr>n_samples = n, data = X, samples = [], topic_terms = [], report = [],
               report_full = [], params = ps, sampling = seq\<rparr> (models self)\<rparr>)))"

definition load_sklearn_lda_data ::
  "(nat \<Rightarrow> nat \<Rightarrow> error + real list list) \<Rightarrow> 'd \<Rightarrow> nat \<Rightarrow> string \<Rightarrow> param_space option \<Rightarrow>
   'd robust_topics \<Rightarrow> error + 'd robust_topics" where
  "load_sklearn_lda_data sobol X n setup custom_params self =
     load_data ''sklearn_lda'' (lda_params setup custom_params) sobol X n self"

definition load_sklearn_nmf_data ::
  "(nat \<Rightarrow> nat \<Rightarrow> error + real list list) \<Rightarrow> 'd \<Rightarrow> nat \<Rightarrow> string \<Rightarrow> param_space option \<Rightarrow>
   'd robust_topics \<Rightarrow> error + 'd robust_topics" where
  "load_sklearn_nmf_data sobol X n setup custom_params self =
     load_data ''sklearn_nmf'' (nmf_params setup custom_params) sobol X n self"

subsection \<open>\<open>_create_ranking_vectors\<close> (lines 376-399)\<close>

definition vocab_update :: "nat list \<Rightarrow> nat list \<Rightarrow> nat list" where
  \<comment> \<open>\<open>vocab.update(es)\<close> on the set kept in first-insertion order\<close>
  "vocab_update vocab es = fold (\<lambda>e v. if e \<in> set v then v else v @ [e]) es vocab"

definition collect_terms ::
  "numlib \<Rightarrow> int \<Rightarrow> model list list \<Rightarrow> nat list \<times> nat list list list list" where
  \<comment> \<open>the first loop: \<open>vocab\<close> is created once, before the loop over the run-groups, and
      receives the top terms of every model of every run-group; the result is
      \<open>(vocab, sample_terms)\<close>\<close>
  "collect_terms E k sams =
     fold (\<lambda>sample (vocab, sample_terms).
        (case fold (\<lambda>m (vocab, terms).
                 (let top_terms = get_top_terms E m k
                  in (vocab_update vocab (concat top_terms), terms @ [top_terms])))
               sample (vocab, [])
         of (vocab', terms) \<Rightarrow> (vocab', sample_terms @ [terms])))
       sams ([], [])"

definition create_ranking_vectors ::
  "numlib \<Rightarrow> int \<Rightarrow> 'd settings \<Rightarrow> error + nat list list list list" where
  "create_ranking_vectors E k st =
     (case collect_terms E k (samples st) of
        (vocab, sample_terms) \<Rightarrow>
          (let vocab_vec = vocab
           in mapM_e (\<lambda>sample.
                np_array3 (map (\<lambda>model_terms. map (\<lambda>t. terms_to_ranking t vocab_vec) model_terms)
                             sample))
              sample_terms))"

subsection \<open>\<open>_compute_topic_stability\<close> (lines 241-345)\<close>

definition evaluate_topic ::
  "numlib \<Rightarrow> nat list list list \<Rightarrow> npfloat list list list \<Rightarrow> nat list list list list \<Rightarrow> nat \<Rightarrow>
   nat \<Rightarrow> error + (npfloat list \<times> npfloat list \<times> npfloat list \<times> npfloat list \<times> npfloat list)" where
  \<comment> \<open>the body of \<open>for topic in range(n_topics)\<close>: the five \<open>pdist\<close> calls in source order;
      the result is \<open>(sim, jen, wasser, ken, spear)\<close>\<close>
  "evaluate_topic E terms term_distributions ranking_vecs sample_id topic =
     bind_e (np_array3 terms) (\<lambda>ta.
     bind_e (slice_topic ta topic) (\<lambda>X.
     bind_e (pdist X jaccard_similarity) (\<lambda>sim.
     bind_e (np_array3 term_distributions) (\<lambda>td.
     bind_e (slice_topic td topic) (\<lambda>D.
     bind_e (pdist D (jenson_similarity E)) (\<lambda>jen.
     bind_e (pdist D (wasserstein_similarity E)) (\<lambda>wasser.
     bind_e (nth_e ranking_vecs sample_id) (\<lambda>rv.
     bind_e (slice_topic rv topic) (\<lambda>R.
     bind_e (pdist R (kendalls E)) (\<lambda>ken.
     bind_e (pdist R (spear E)) (\<lambda>spe.
       Inr (sim, jen, wasser, ken, spe))))))))))))"

definition summary :: "numlib \<Rightarrow> npfloat list list \<Rightarrow> error + stats" where
  \<comment> \<open>the dict \<open>{"mean": A.mean(axis=1), "std": .., "min": .., "max": ..}\<close>\<close>
  "summary E A =
     bind_e (mean_axis1 A) (\<lambda>me.
     bind_e (std_axis1 E A) (\<lambda>sd.
     bind_e (min_axis1 A) (\<lambda>mi.
     bind_e (max_axis1 A) (\<lambda>ma.
       Inr \<lparr>st_mean = me, st_std = sd, st_min = mi, st_max = ma\<rparr>))))"

definition make_reports ::
  "numlib \<Rightarrow> string \<Rightarrow> nat \<Rightarrow> nat \<Rightarrow> config list \<Rightarrow>
   (npfloat list \<times> npfloat list \<times> npfloat list \<times> npfloat list \<times> npfloat list) list \<Rightarrow>
   error + (stability_report \<times> full_report)" where
  \<comment> \<open>lines 291-342: the five arrays, then \<open>report\<close>, then \<open>report_full\<close>\<close>
  "make_reports E name sample_id n_topics sampl rows =
     (let jaccard_sim = map (\<lambda>(sim, jen, wasser, ken, spe). sim) rows;
          jensen_sim = map (\<lambda>(sim, jen, wasser, ken, spe). jen) rows;
          wasserstein_sim = map (\<lambda>(sim, jen, wasser, ken, spe). wasser) rows;
          kendalls_ranking = map (\<lambda>(sim, jen, wasser, ken, spe). ken) rows;
          spearman_ranking = map (\<lambda>(sim, jen, wasser, ken, spe). spe) rows
      in bind_e (nth_e sampl sample_id) (\<lambda>cfg.
         bind_e (summary E jaccard_sim) (\<lambda>fj.
         bind_e (summary E kendalls_ranking) (\<lambda>fk.
         bind_e (summary E spearman_ranking) (\<lambda>fs.
         bind_e (summary E jensen_sim) (\<lambda>fe.
         bind_e (summary E wasserstein_sim) (\<lambda>fw.
           Inr (\<lparr>r_model = name, r_sample_id = sample_id, r_n_topics = n_topics,
                 r_params = cfg,
                 r_jaccard = mean_all jaccard_sim,
                 r_kendallstau = mean_all kendalls_ranking,
                 r_spearman = mean_all spearman_ranking,
                 r_jensenshannon = mean_all jensen_sim,
                 r_wasserstein = mean_all wasserstein_sim\<rparr>,
                \<lparr>f_model = name, f_sample_id = sample_id, f_n_topics = n_topics,
                 f_params = cfg,
                 f_jaccard = fj, f_kendalltau = fk, f_spearman = fs,
                 f_jensenshannon = fe, f_wasserstein = fw\<rparr>))))))))"

definition stability_sample ::
  "numlib \<Rightarrow> int \<Rightarrow> string \<Rightarrow> nat list list list list \<Rightarrow> nat \<Rightarrow> model list \<Rightarrow>
   'd settings \<Rightarrow> error option \<times> 'd settings" where
  \<comment> \<open>the body of \<open>for sample_id, sample in enumerate(settings["samples"])\<close>; the result
      is the exception raised, if any, and \<open>settings\<close> as the body left it\<close>
  "stability_sample E k name ranking_vecs sample_id sample st =
     (case nth_e sample 0 of
        Inl e \<Rightarrow> (Some e, st)
      | Inr m0 \<Rightarrow>
         (let n_topics = n_components m0;
              terms = map (\<lambda>m. get_top_terms E m k) sample;
              term_distributions = map (\<lambda>m. normalize_rows (components m)) sample
          in case np_array3 terms of
               Inl e \<Rightarrow> (Some e, st)
             | Inr ta \<Rightarrow>
                (let st1 = st\<lparr>topic_terms := topic_terms st @ [ta]\<rparr>
                 in case bind_e
                      (mapM_e (evaluate_topic E terms term_distributions ranking_vecs sample_id)
                         [0 ..< n_topics])
                      (make_reports E name sample_id n_topics (sampling st1))
                    of Inl e \<Rightarrow> (Some e, st1)
                     | Inr (rep, repf) \<Rightarrow>
                         (None, st1\<lparr>report := report st1 @ [rep],
                                    report_full := report_full st1 @ [repf]\<rparr>))))"

fun stability_samples ::
  "numlib \<Rightarrow> int \<Rightarrow> string \<Rightarrow> nat list list list list \<Rightarrow> (nat \<times> model list) list \<Rightarrow>
   'd settings \<Rightarrow> error option \<times> 'd settings" where
  "stability_samples E k name ranking_vecs [] st = (None, st)"
| "stability_samples E k name ranking_vecs ((sample_id, sample) # rest) st =
     (case stability_sample E k name ranking_vecs sample_id sample st of
        (Some e, st') \<Rightarrow> (Some e, st')
      | (None, st') \<Rightarrow> stability_samples E k name ranking_vecs rest st')"

fun stability_models ::
  "numlib \<Rightarrow> int \<Rightarrow> (string \<times> 'd settings) list \<Rightarrow> error option \<times> (string \<times> 'd settings) list" where
  \<comment> \<open>the loop \<open>for name, settings in self.models.items()\<close>\<close>
  "stability_models E k [] = (None, [])"
| "stability_models E k ((name, st) # ms) =
     (case create_ranking_vectors E k st of
        Inl e \<Rightarrow> (Some e, (name, st) # ms)
      | Inr ranking_vecs \<Rightarrow>
         (case stability_samples E k name ranking_vecs
                 (zip [0 ..< length (samples st)] (samples st)) st of
            (Some e, st') \<Rightarrow> (Some e, (name, st') # ms)
          | (None, st') \<Rightarrow>
              (case stability_models E k ms of (r, ms') \<Rightarrow> (r, (name, st') # ms'))))"

definition compute_topic_stability ::
  "numlib \<Rightarrow> 'd robust_topics \<Rightarrow> error option \<times> 'd robust_topics" where
  "compute_topic_stability E self =
     (case stability_models E (n_relevant_top_words self) (models self) of
        (r, ms) \<Rightarrow> (r, self\<lparr>models := ms\<rparr>))"

subsection \<open>\<open>fit_models\<close> (lines 99-135)\<close>

text \<open>
  The fit capability is external and random: \<open>LatentDirichletAllocation(**sample).fit(data)\<close>
  and \<open>NMF(**sample).fit(data)\<close> are functions of the configuration, the data and a state
  \<open>'w\<close> of the outside world (the random generator); they return the trained model or the
  exception raised, and the next state of the world. They do not modify \<open>data\<close>.
  A method that mutates the object returns the exception raised (\<open>None\<close> when it returned
  normally) together with the object as the call left it.
\<close>

record ('d, 'w) fitters =
  fit_lda :: "config \<Rightarrow> 'd \<Rightarrow> 'w \<Rightarrow> (error + model) \<times> 'w"
  fit_nmf :: "config \<Rightarrow> 'd \<Rightarrow> 'w \<Rightarrow> (error + model) \<times> 'w"

definition fit_iteration ::
  "('d, 'w) fitters \<Rightarrow> string \<Rightarrow> config \<Rightarrow> 'd \<Rightarrow> model list \<Rightarrow> 'w \<Rightarrow> (error + model list) \<times> 'w" where
  \<comment> \<open>the body of \<open>for it in range(1, self.n_iterations+1)\<close>: two independent \<open>if\<close>
      statements on the family name\<close>
  "fit_iteration F name sample dat model_iterations w =
     (case (if name = ''sklearn_lda'' then
              (case fit_lda F sample dat w of
                 (Inl e, w') \<Rightarrow> (Inl e, w')
               | (Inr m, w') \<Rightarrow> (Inr (model_iterations @ [m]), w'))
            else (Inr model_iterations, w)) of
        (Inl e, w1) \<Rightarrow> (Inl e, w1)
      | (Inr its, w1) \<Rightarrow>
          (if name = ''sklearn_nmf'' then
             (case fit_nmf F sample dat w1 of
                (Inl e, w') \<Rightarrow> (Inl e, w')
              | (Inr m, w') \<Rightarrow> (Inr (its @ [m]), w'))
           else (Inr its, w1)))"

fun fit_iterations ::
  "('d, 'w) fitters \<Rightarrow> string \<Rightarrow> config \<Rightarrow> 'd \<Rightarrow> int list \<Rightarrow> model list \<Rightarrow> 'w \<Rightarrow>
   (error + model list) \<times> 'w" where
  "fit_iterations F name sample dat [] model_iterations w = (Inr model_iterations, w)"
| "fit_iterations F name sample dat (it # its) model_iterations w =
     (case fit_iteration F name sample dat model_iterations w of
        (Inl e, w') \<Rightarrow> (Inl e, w')
      | (Inr ms, w') \<Rightarrow> fit_iterations F name sample dat its ms w')"

fun fit_samples ::
  "('d, 'w) fitters \<Rightarrow> int \<Rightarrow> string \<Rightarrow> config list \<Rightarrow> 'd settings \<Rightarrow> 'w \<Rightarrow>
   error option \<times> 'd settings \<times> 'w" where
  \<comment> \<open>the loop \<open>for sample in settings["sampling"]\<close>: the run-group is appended to
      \<open>settings["samples"]\<close> only after all its iterations\<close>
  "fit_samples F n_it name [] st w = (None, st, w)"
| "fit_samples F n_it name (sample # rest) st w =
     (case fit_iterations F name sample (data st) [1 .. n_it] [] w of
        (Inl e, w') \<Rightarrow> (Some e, st, w')
      | (Inr model_iterations, w') \<Rightarrow>
          fit_samples F n_it name rest (st\<lparr>samples := samples st @ [model_iterations]\<rparr>) w')"

fun fit_all ::
  "('d, 'w) fitters \<Rightarrow> int \<Rightarrow> (string \<times> 'd settings) list \<Rightarrow> 'w \<Rightarrow>
   error option \<times> (string \<times> 'd settings) list \<times> 'w" where
  \<comment> \<open>the loop \<open>for name, settings in self.models.items()\<close>\<close>
  "fit_all F n_it [] w = (None, [], w)"
| "fit_all F n_it ((name, st) # ms) w =
     (case fit_samples F n_it name (sampling st) st w of
        (Some e, st', w') \<Rightarrow> (Some e, (name, st') # ms, w')
      | (None, st', w') \<Rightarrow>
          (case fit_all F n_it ms w' of (r, ms', w'') \<Rightarrow> (r, (name, st') # ms', w'')))"

definition fit_models ::
  "('d, 'w) fitters \<Rightarrow> numlib \<Rightarrow> 'd robust_topics \<Rightarrow> 'w \<Rightarrow> error option \<times> 'd robust_topics \<times> 'w" where
  \<comment> \<open>\<open>_compute_topic_stability\<close> is called once, after the loops over all families\<close>
  "fit_models F E self w =
     (case fit_all F (n_iterations self) (models self) w of
        (Some e, ms, w') \<Rightarrow> (Some e, self\<lparr>models := ms\<rparr>, w')
      | (None, ms, w') \<Rightarrow>
          (case compute_topic_stability E (self\<lparr>models := ms\<rparr>) of
             (r, self') \<Rightarrow> (r, self', w')))"

subsection \<open>\<open>rank_models\<close> (lines 347-356)\<close>

text \<open>
  \<open>report_item\<close> is \<open>s[key]\<close> on a report dict: the numeric entries give a float, the entries
  \<open>model\<close> and \<open>params\<close> give a value that cannot be added to a float. \<open>sorted(.., reverse=True)\<close>
  is a stable sort in descending key order; comparisons with \<open>nan\<close> are false.
\<close>

definition report_item :: "stability_report \<Rightarrow> string \<Rightarrow> error + npfloat option" where
  "report_item s key =
     (if key = ''jaccard'' then Inr (Some (r_jaccard s))
      else if key = ''kendallstau'' then Inr (Some (r_kendallstau s))
      else if key = ''spearman'' then Inr (Some (r_spearman s))
      else if key = ''jensenshannon'' then Inr (Some (r_jensenshannon s))
      else if key = ''wasserstein'' then Inr (Some (r_wasserstein s))
      else if key = ''sample_id'' then Inr (Some (Num (real (r_sample_id s))))
      else if key = ''n_topics'' then Inr (Some (Num (real (r_n_topics s))))
      else if key = ''model'' \<or> key = ''params'' then Inr None
      else Inl KeyError)"

definition get_attr :: "string option \<Rightarrow> error + string" where
  \<comment> \<open>reading an attribute the object may not have\<close>
  "get_attr a = (case a of None \<Rightarrow> Inl AttributeError | Some v \<Rightarrow> Inr v)"

definition weighted :: "error + npfloat option \<Rightarrow> real list \<Rightarrow> int \<Rightarrow> error + npfloat" where
  \<comment> \<open>\<open>s[key] * weights[i]\<close>, to be added to a float: the subscript of the report first,
      then the subscript of the weights, then the arithmetic\<close>
  "weighted item weights i =
     bind_e item (\<lambda>x.
     bind_e (py_index weights i) (\<lambda>wi.
       case x of None \<Rightarrow> Inl TypeError | Some v \<Rightarrow> Inr (fop (*) v (Num wi))))"

definition rank_key :: "'d robust_topics \<Rightarrow> real list \<Rightarrow> stability_report \<Rightarrow> error + npfloat" where
  \<comment> \<open>the \<open>key\<close> function of line 356\<close>
  "rank_key self weights s =
     bind_e (weighted (report_item s ''jaccard'') weights 0) (\<lambda>a.
     bind_e (weighted (bind_e (get_attr (rank_metric self)) (report_item s)) weights 1) (\<lambda>b.
     bind_e (weighted (bind_e (get_attr (distribution_metric self)) (report_item s)) weights 2)
       (\<lambda>c. Inr (fdiv (fop (+) (fop (+) a b) c) (Num (sum_list weights))))))"

fun key_less :: "npfloat \<Rightarrow> npfloat \<Rightarrow> bool" where
  "key_less (Num a) (Num b) = (a < b)"
| "key_less a b = False"

fun insert_desc :: "npfloat \<times> 'a \<Rightarrow> (npfloat \<times> 'a) list \<Rightarrow> (npfloat \<times> 'a) list" where
  "insert_desc x [] = [x]"
| "insert_desc x (y # ys) = (if key_less (fst x) (fst y) then y # insert_desc x ys else x # y # ys)"

definition sorted_desc :: "(npfloat \<times> 'a) list \<Rightarrow> 'a list" where
  "sorted_desc kxs = map snd (foldr insert_desc kxs [])"

definition rank_models ::
  "'d robust_topics \<Rightarrow> real list \<Rightarrow> (string \<times> int) list \<Rightarrow> error + stability_report list" where
  \<comment> \<open>the argument \<open>ranking\<close> is not used by the body\<close>
  "rank_models self weights ranking =
     (let all_reports = concat (map (\<lambda>(name, st). report st) (models self))
      in bind_e (mapM_e (\<lambda>s. bind_e (rank_key self weights s) (\<lambda>k. Inr (k, s))) all_reports)
           (\<lambda>kxs. Inr (sorted_desc kxs)))"

subsection \<open>\<open>analyse_sample\<close> (lines 358-368)\<close>

definition py_set :: "nat list \<Rightarrow> nat list" where
  \<comment> \<open>\<open>set(xs)\<close>, enumerated in first-insertion order\<close>
  "py_set xs = vocab_update [] xs"

definition intersection_update :: "nat list \<Rightarrow> nat list \<Rightarrow> nat list" where
  "intersection_update inters other = filter (\<lambda>i. i \<in> set other) inters"

definition topic_intersection :: "nat list list list \<Rightarrow> nat \<Rightarrow> error + nat list" where
  \<comment> \<open>lines 363-365 for one \<open>topic\<close>; \<open>arr\<close> is \<open>topic_terms[sample_id]\<close>, indexed
      \<open>[run][topic][rank]\<close>. The start value is \<open>arr[topic][0]\<close>.\<close>
  "topic_intersection arr topic =
     bind_e (nth_e arr topic) (\<lambda>r.
     bind_e (nth_e r 0) (\<lambda>t0.
       foldM_e (\<lambda>terms inters.
            bind_e (nth_e terms topic) (\<lambda>t. Inr (intersection_update inters (py_set t))))
         arr (py_set t0)))"

fun join_space :: "string list \<Rightarrow> string" where
  "join_space [] = []"
| "join_space [x] = x"
| "join_space (x # y # ys) = x @ '' '' @ join_space (y # ys)"

fun analyse_topics ::
  "nat list list list \<Rightarrow> string list \<Rightarrow> nat list \<Rightarrow> (nat \<times> string) list \<Rightarrow>
   error option \<times> (nat \<times> string) list" where
  \<comment> \<open>the loop over the topics; \<open>out\<close> is what has been printed: the topic number and the
      line of feature names, one pair for the two \<open>print\<close> calls\<close>
  "analyse_topics arr feature_names [] out = (None, out)"
| "analyse_topics arr feature_names (topic # topics) out =
     (case bind_e (topic_intersection arr topic) (mapM_e (nth_e feature_names)) of
        Inl e \<Rightarrow> (Some e, out)
      | Inr names \<Rightarrow>
          analyse_topics arr feature_names topics (out @ [(topic, join_space names)]))"

definition dict_get :: "('k \<times> 'v) list \<Rightarrow> 'k \<Rightarrow> error + 'v" where
  "dict_get d k = (case map_of d k of None \<Rightarrow> Inl KeyError | Some v \<Rightarrow> Inr v)"

definition analyse_sample ::
  "'d robust_topics \<Rightarrow> string \<Rightarrow> nat \<Rightarrow> string list \<Rightarrow> error option \<times> (nat \<times> string) list" where
  "analyse_sample self name sample_id feature_names =
     (case bind_e (dict_get (models self) name) (\<lambda>st.
           bind_e (nth_e (samples st) sample_id) (\<lambda>sample.
           bind_e (nth_e sample 0) (\<lambda>m0.
             Inr (st, length (components m0))))) of
        Inl e \<Rightarrow> (Some e, [])
      | Inr (st, n) \<Rightarrow>
          (if n = 0 then (None, [])
           else case nth_e (topic_terms st) sample_id of
                  Inl e \<Rightarrow> (Some e, [])
                | Inr arr \<Rightarrow> analyse_topics arr feature_names [0 ..< n] []))"

subsection \<open>Relations between the contexts before and after a call\<close>

text \<open>
  The predicates the frame properties are stated with. \<open>frame_ok st st'\<close>: the entries
  \<open>params\<close>, \<open>sampling\<close>, \<open>n_samples\<close> and \<open>data\<close> of a context are the same in \<open>st'\<close> as in \<open>st\<close>,
  and the four lists have only been appended to. \<open>fit_only n_it\<close>: between the two contexts
  of one family only \<open>samples\<close> differs; it has gained complete run-groups (\<open>run_count\<close>
  artifacts each), at most one per configuration.
\<close>

definition frame_ok :: "'d settings \<Rightarrow> 'd settings \<Rightarrow> bool" where
  "frame_ok st st' =
     (params st' = params st \<and> sampling st' = sampling st \<and>
      n_samples st' = n_samples st \<and> data st' = data st \<and>
      prefix (samples st) (samples st') \<and> prefix (topic_terms st) (topic_terms st') \<and>
      prefix (report st) (report st') \<and> prefix (report_full st) (report_full st'))"

definition run_count :: "int \<Rightarrow> string \<Rightarrow> nat" where
  \<comment> \<open>the number of artifacts of a complete run-group: \<open>n_iterations\<close> for the two families
      \<open>fit_models\<close> knows, none for any other name\<close>
  "run_count n_it name =
     (if name = ''sklearn_lda'' \<or> name = ''sklearn_nmf'' then nat n_it else 0)"

definition appended_groups :: "'d settings \<Rightarrow> 'd settings \<Rightarrow> model list list" where
  "appended_groups st st' = drop (length (samples st)) (samples st')"

definition fit_only :: "int \<Rightarrow> string \<times> 'd settings \<Rightarrow> string \<times> 'd settings \<Rightarrow> bool" where
  "fit_only n_it = (\<lambda>(name, st) (name', st').
     name' = name \<and> st' = st\<lparr>samples := samples st'\<rparr> \<and>
     prefix (samples st) (samples st') \<and>
     list_all (\<lambda>g. length g = run_count n_it name) (appended_groups st st') \<and>
     length (appended_groups st st') \<le> length (sampling st))"

definition same_family :: "string \<times> 'd settings \<Rightarrow> string \<times> 'd settings \<Rightarrow> bool" where
  "same_family = (\<lambda>(name, st) (name', st'). name' = name \<and> frame_ok st st')"

subsection \<open>The fit capability on the calls of \<open>fit_models\<close>\<close>

text \<open>
  To state when the fit capability raises, its calls are listed apart from the loops of
  \<open>fit_models\<close>. \<open>fit_calls\<close> is the sequence of calls a run without exception makes:
  family after family, configuration after configuration, \<open>run_count\<close> times each.
  \<open>all_fitted\<close> threads the state of the world through a sequence of calls and gives the
  trained models when none of them raises. \<open>spec_stored\<close> says in words of its own what a
  failed fit stores, for comparison with what \<open>fit_models\<close> leaves behind: given the models \<open>ok\<close>
  trained before the first exception, every configuration all of whose iterations were
  trained has its complete run-group appended to \<open>samples\<close>, in order; the configuration
  that was being fitted has none; nothing else changes.
\<close>

definition fit_call ::
  "('d, 'w) fitters \<Rightarrow> string \<times> config \<times> 'd \<Rightarrow> 'w \<Rightarrow> (error + model) \<times> 'w" where
  "fit_call F = (\<lambda>(name, sample, dat) w.
     if name = ''sklearn_lda'' then fit_lda F sample dat w else fit_nmf F sample dat w)"

definition family_calls :: "int \<Rightarrow> string \<Rightarrow> 'd settings \<Rightarrow> (string \<times> config \<times> 'd) list" where
  "family_calls n_it name st =
     concat (map (\<lambda>sample. replicate (run_count n_it name) (name, sample, data st)) (sampling st))"

definition fit_calls :: "int \<Rightarrow> (string \<times> 'd settings) list \<Rightarrow> (string \<times> config \<times> 'd) list" where
  "fit_calls n_it ms = concat (map (\<lambda>(name, st). family_calls n_it name st) ms)"

fun all_fitted ::
  "('d, 'w) fitters \<Rightarrow> (string \<times> config \<times> 'd) list \<Rightarrow> 'w \<Rightarrow> (model list \<times> 'w) option" where
  "all_fitted F [] w = Some ([], w)"
| "all_fitted F (c # cs) w =
     (case fit_call F c w of
        (Inl e, w1) \<Rightarrow> None
      | (Inr m, w1) \<Rightarrow>
          (case all_fitted F cs w1 of
             None \<Rightarrow> None
           | Some (ms, w2) \<Rightarrow> Some (m # ms, w2)))"

fun complete_groups :: "nat \<Rightarrow> nat \<Rightarrow> model list \<Rightarrow> model list list" where
  \<comment> \<open>the run-groups of size \<open>r\<close> that \<open>ok\<close> fills completely, for at most \<open>j\<close> configurations\<close>
  "complete_groups r 0 ok = []"
| "complete_groups r (Suc j) ok =
     (if r \<le> length ok then take r ok # complete_groups r j (drop r ok) else [])"

fun spec_stored ::
  "int \<Rightarrow> (string \<times> 'd settings) list \<Rightarrow> model list \<Rightarrow> (string \<times> 'd settings) list" where
  "spec_stored n_it [] ok = []"
| "spec_stored n_it ((name, st) # ms) ok =
     (name, st\<lparr>samples := samples st @
                 complete_groups (run_count n_it name) (length (sampling st)) ok\<rparr>) #
     (if length (family_calls n_it name st) \<le> length ok
      then spec_stored n_it ms (drop (length (family_calls n_it name st)) ok)
      else ms)"

subsection \<open>Example instances\<close>

text \<open>
  Concrete inputs for the instances stated below. \<open>ex_lib\<close> is an instance of the numerical
  library that is exact on the inputs used here: weights without ties (where every argsort
  agrees with the stable one) and pairs of identical vectors (correlation 1, distance 0,
  standard deviation 0 of a constant row); on other pairs this instance raises.
  \<open>ex_fit\<close> returns the model \<open>ex_model\<close> on its first three calls and raises on every later
  call; the state of the world is the number of calls made.
\<close>

definition argsort_stable :: "real list \<Rightarrow> nat list" where
  "argsort_stable xs = map snd (sort_key fst (zip xs [0 ..< length xs]))"

definition ex_lib :: numlib where
  "ex_lib =
     \<lparr>argsort = argsort_stable,
      kendalltau = (\<lambda>a b. if a = b then Inr (Num 1) else Inl (Raised ''other'')),
      spearmanr = (\<lambda>a b. if a = b then Inr (Num 1) else Inl (Raised ''other'')),
      jensenshannon = (\<lambda>a b. if a = b then Inr (Num 0) else Inl (Raised ''other'')),
      wasserstein_distance = (\<lambda>a b. if a = b then Inr (Num 0) else Inl (Raised ''other'')),
      np_std = (\<lambda>xs. case xs of [] \<Rightarrow> NaN
                | x # ys \<Rightarrow> if list_all (\<lambda>y. y = x) ys \<and> x \<noteq> NaN then Num 0 else NaN)\<rparr>"

definition ex_model :: model where
  "ex_model = \<lparr>n_components = 2, components = [[3, 9, 7, 2, 1], [1, 2, 3, 7, 9]]\<rparr>"

definition ex_model2 :: model where
  "ex_model2 = \<lparr>n_components = 2, components = [[9, 3, 7, 2, 1], [1, 2, 9, 7, 3]]\<rparr>"

definition ex_fit :: "(unit, nat) fitters" where
  "ex_fit =
     \<lparr>fit_lda = (\<lambda>c d w. (if w < 3 then Inr ex_model else Inl (Raised ''fit failed''), Suc w)),
      fit_nmf = (\<lambda>c d w. (Inl (Raised ''fit failed''), Suc w))\<rparr>"

definition ex_custom :: param_space where
  "ex_custom = [(''n_components'', \<lparr>p_type = TInt, p_mode = ''fixed'', p_literal = True, p_values = VInt 2\<rparr>)]"

definition ex_settings :: "config list \<Rightarrow> model list list \<Rightarrow> unit settings" where
  "ex_settings cfgs groups =
     \<lparr>n_samples = length cfgs, data = (), samples = groups, topic_terms = [], report = [],
      report_full = [], params = ex_custom, sampling = cfgs\<rparr>"

definition ex_loaded :: "config list \<Rightarrow> unit robust_topics" where
  \<comment> \<open>the object after \<open>RobustTopics(2, 2)\<close> and \<open>load_sklearn_lda_data\<close> with the custom space
      \<open>ex_custom\<close>, holding the configurations \<open>cfgs\<close>\<close>
  "ex_loaded cfgs =
     \<lparr>n_iterations = 2, n_relevant_top_words = 2,
      models = [(''sklearn_lda'', ex_settings cfgs [])],
      rank_metric = None, distribution_metric = None\<rparr>"

definition ex_stats :: "real \<Rightarrow> stats" where
  "ex_stats v =
     \<lparr>st_mean = [Num v, Num v], st_std = [Num 0, Num 0],
      st_min = [Num v, Num v], st_max = [Num v, Num v]\<rparr>"

definition ex_fitted :: "unit robust_topics" where
  \<comment> \<open>the object after \<open>fit_models\<close> on \<open>ex_loaded\<close> with one configuration\<close>
  "ex_fitted =
     \<lparr>n_iterations = 2, n_relevant_top_words = 2,
      models =
        [(''sklearn_lda'',
          \<lparr>n_samples = 1, data = (),
           samples = [[ex_model, ex_model]],
           topic_terms = [[[[1, 2], [4, 3]], [[1, 2], [4, 3]]]],
           report =
             [\<lparr>r_model = ''sklearn_lda'', r_sample_id = 0, r_n_topics = 2,
               r_params = [(''n_components'', VInt 2)],
               r_jaccard = Num 1, r_kendallstau = Num 1, r_spearman = Num 1,
               r_jensenshannon = Num 1, r_wasserstein = Num 1\<rparr>],
           report_full =
             [\<lparr>f_model = ''sklearn_lda'', f_sample_id = 0, f_n_topics = 2,
               f_params = [(''n_components'', VInt 2)],
               f_jaccard = ex_stats 1, f_kendalltau = ex_stats 1, f_spearman = ex_stats 1,
               f_jensenshannon = ex_stats 1, f_wasserstein = ex_stats 1\<rparr>],
           params = ex_custom,
           sampling = [[(''n_components'', VInt 2)]]\<rparr>)],
      rank_metric = None, distribution_metric = None\<rparr>"

definition ex_two :: "unit settings" where
  \<comment> \<open>a context with two configurations whose run-groups have different top terms\<close>
  "ex_two =
     ex_settings [[(''n_components'', VInt 2)], [(''n_components'', VInt 2)]]
       [[ex_model, ex_model], [ex_model2, ex_model2]]"

definition spec_topic_intersection :: "nat list list list \<Rightarrow> nat \<Rightarrow> nat set" where
  \<comment> \<open>following the specification's words, for comparison with \<open>topic_intersection\<close>: the
      set-intersection of that topic's term list across every run of the run-group\<close>
  "spec_topic_intersection arr topic = (\<Inter>run \<in> set arr. set (run ! topic))"

definition ex_single :: "unit robust_topics" where
  \<comment> \<open>one configuration fitted with \<open>n_iterations = 1\<close>: a run-group of a single run\<close>
  "ex_single =
     \<lparr>n_iterations = 1, n_relevant_top_words = 2,
      models = [(''sklearn_lda'', ex_settings [[(''n_components'', VInt 2)]] [[ex_model]])],
      rank_metric = None, distribution_metric = None\<rparr>"
section \<open>Properties\<close>

subsection \<open>Rank vectors\<close>

lemma list_index_less: "e \<in> set xs \<Longrightarrow> list_index xs e < length xs"
  by (induction xs) auto

lemma list_index_nth: "e \<in> set xs \<Longrightarrow> xs ! list_index xs e = e"
  by (induction xs) auto

lemma list_index_first: "j < list_index xs e \<Longrightarrow> xs ! j \<noteq> e"
proof (induction xs arbitrary: j)
  case Nil
  then show ?case by simp
next
  case (Cons x xs)
  then show ?case by (cases j) (auto split: if_splits)
qed

lemma ranking_loop_map:
  "ranking_loop terms n vec es =
     vec @ map (\<lambda>e. if e \<in> set terms then list_index terms e else n) es"
  by (induction es arbitrary: vec) auto

lemma terms_to_ranking_map:
  "terms_to_ranking terms vocab =
     map (\<lambda>e. if e \<in> set terms then list_index terms e else length vocab) vocab"
  by (simp add: terms_to_ranking_def ranking_loop_map)

text \<open>
  C8: the rank vector built from a top-term list and a vocabulary has exactly the length
  of the vocabulary; the entry of a vocabulary element that occurs in the top-term list is
  its 0-based position there (the first position holding it), and the entry of every element
  that does not occur is the vocabulary size.
\<close>

theorem terms_to_ranking_spec:
  "length (terms_to_ranking terms vocab) = length vocab \<and>
   (\<forall>i < length vocab.
      (vocab ! i \<in> set terms \<longrightarrow>
         terms_to_ranking terms vocab ! i < length terms \<and>
         terms ! (terms_to_ranking terms vocab ! i) = vocab ! i \<and>
         (\<forall>j < terms_to_ranking terms vocab ! i. terms ! j \<noteq> vocab ! i)) \<and>
      (vocab ! i \<notin> set terms \<longrightarrow>
         terms_to_ranking terms vocab ! i = length vocab))"
  by (simp add: terms_to_ranking_map list_index_less list_index_nth list_index_first)

theorem terms_to_ranking_spec_witness:
  "terms_to_ranking [3, 7, 1 :: nat] [1, 3, 5, 7, 9] = [2, 0, 5, 1, 5] \<and>
   length (terms_to_ranking [3, 7, 1 :: nat] [1, 3, 5, 7, 9]) = 5 \<and>
   [1, 3, 5, 7, 9 :: nat] ! 3 \<in> set [3, 7, 1] \<and>
   [3, 7, 1 :: nat] ! (terms_to_ranking [3, 7, 1 :: nat] [1, 3, 5, 7, 9] ! 3) = 7 \<and>
   [1, 3, 5, 7, 9 :: nat] ! 2 \<notin> set [3, 7, 1] \<and>
   terms_to_ranking [3, 7, 1 :: nat] [1, 3, 5, 7, 9] ! 2 = 5"
  using terms_to_ranking_spec [of "[3, 7, 1 :: nat]" "[1, 3, 5, 7, 9]"]
  by (simp add: terms_to_ranking_def)

subsection \<open>Jaccard similarity\<close>

text \<open>
  C9: for non-empty term lists the Jaccard similarity is defined (no error), symmetric and
  in [0,1]; it is exactly 1 when the two lists have the same term set and exactly 0 when
  their term sets are disjoint.
\<close>

theorem jaccard_similarity_spec:
  assumes "a \<noteq> []" and "b \<noteq> []"
  shows "\<exists>r. jaccard_similarity a b = Inr (Num r) \<and> jaccard_similarity b a = Inr (Num r) \<and>
           0 \<le> r \<and> r \<le> 1 \<and>
           (set a = set b \<longrightarrow> r = 1) \<and> (set a \<inter> set b = {} \<longrightarrow> r = 0)"
proof -
  let ?i = "card (set a \<inter> set b)" and ?u = "card (set a \<union> set b)"
  from assms have u: "0 < ?u" by (simp add: card_gt_0_iff)
  have le: "?i \<le> ?u" by (rule card_mono) auto
  have "jaccard_similarity a b = Inr (Num (real ?i / real ?u))"
    using assms by (simp add: jaccard_similarity_def Let_def)
  moreover have "jaccard_similarity b a = Inr (Num (real ?i / real ?u))"
    using assms by (simp add: jaccard_similarity_def Let_def Int_commute Un_commute)
  moreover have "0 \<le> real ?i / real ?u" by simp
  moreover have "real ?i / real ?u \<le> 1" using le u by simp
  moreover have "set a = set b \<longrightarrow> real ?i / real ?u = 1" using u by auto
  moreover have "set a \<inter> set b = {} \<longrightarrow> real ?i / real ?u = 0" by simp
  ultimately show ?thesis by blast
qed

theorem jaccard_similarity_spec_witness:
  "jaccard_similarity [3, 7, 1 :: nat] [3, 7, 1] = Inr (Num 1) \<and>
   jaccard_similarity [1, 2, 3 :: nat] [4, 5, 6] = Inr (Num 0) \<and>
   jaccard_similarity [4, 5, 6 :: nat] [1, 2, 3] = Inr (Num 0)"
proof -
  have n: "[3, 7, 1 :: nat] \<noteq> []" "[1, 2, 3 :: nat] \<noteq> []" "[4, 5, 6 :: nat] \<noteq> []"
    by simp_all
  have d: "set [1, 2, 3 :: nat] \<inter> set [4, 5, 6] = {}" by simp
  from jaccard_similarity_spec [OF n(1) n(1)] jaccard_similarity_spec [OF n(2) n(3)] d
  show ?thesis by auto
qed

subsection \<open>Parameter sampling\<close>

lemma py_int_bounds:
  assumes "real_of_int a \<le> x" "x \<le> real_of_int b"
  shows "a \<le> py_int x \<and> py_int x \<le> b"
proof (cases "0 \<le> x")
  case True
  then have "py_int x = \<lfloor>x\<rfloor>" by (simp add: py_int_def)
  moreover have "a \<le> \<lfloor>x\<rfloor>" using assms(1) by (simp add: le_floor_iff)
  moreover have "\<lfloor>x\<rfloor> \<le> b" using assms(2) by (simp add: floor_le_iff) 
  ultimately show ?thesis by simp
next
  case False
  then have "py_int x = \<lceil>x\<rceil>" by (simp add: py_int_def)
  moreover have "a \<le> \<lceil>x\<rceil>" using assms(1) by (simp add: le_ceiling_iff) 
  moreover have "\<lceil>x\<rceil> \<le> b" using assms(2) by (simp add: ceiling_le_iff)
  ultimately show ?thesis by simp
qed

lemma interp_bounds:
  fixes a b s :: real
  assumes "a \<le> b" "0 \<le> s" "s \<le> 1"
  shows "a \<le> a + (b - a) * s \<and> a + (b - a) * s \<le> b"
proof -
  have "0 \<le> (b - a) * s" using assms by simp
  moreover have "(b - a) * s \<le> (b - a) * 1" using assms by (intro mult_left_mono) auto
  ultimately show ?thesis by simp
qed

lemma range_to_value_ok:
  assumes "valid_range t vs" "0 \<le> s" "s \<le> 1"
  shows "\<exists>v. range_to_value vs s t = Inr v \<and> in_range vs v"
  using assms
proof (induction t vs rule: valid_range.induct)
  case (1 t lo hi)
  then obtain a b where ab: "num_of lo = Some a" "num_of hi = Some b" "a \<le> b"
    and ty: "t = TInt \<longrightarrow> is_VInt lo \<and> is_VInt hi"
    by (auto split: option.splits)
  let ?v = "a + (b - a) * s"
  have bnd: "a \<le> ?v \<and> ?v \<le> b" using ab(3) 1(2,3) by (rule interp_bounds)
  have r: "range_to_value (VList [lo, hi]) s t =
             Inr (if t = TInt then VInt (py_int ?v) else VFloat ?v)"
    using ab by (simp add: range_to_value_def bind_e_def py_index_def)
  show ?case
  proof (cases "t = TInt")
    case True
    with ty obtain i j where ij: "lo = VInt i" "hi = VInt j"
      by (cases lo; cases hi) auto
    with ab have "a = real_of_int i" "b = real_of_int j" by auto
    with bnd have "real_of_int i \<le> ?v" "?v \<le> real_of_int j" by blast+
    then have "i \<le> py_int ?v \<and> py_int ?v \<le> j" by (rule py_int_bounds)
    with True r ij show ?thesis by simp
  next
    case False
    with r ab bnd show ?thesis by simp
  qed
qed simp_all

lemma list_to_value_ok:
  assumes "valid_list vs" "0 \<le> s" "s \<le> 1"
  shows "\<exists>v. list_to_value vs s t = Inr v \<and> in_list vs v"
proof -
  from assms(1) obtain xs where xs: "vs = VList xs" "xs \<noteq> []"
    by (cases vs) auto
  define i where "i = min \<lfloor>s * real (length xs)\<rfloor> (int (length xs) - 1)"
  have "0 \<le> s * real (length xs)" using assms(2) by simp
  then have "0 \<le> \<lfloor>s * real (length xs)\<rfloor>" by simp
  moreover have "0 \<le> int (length xs) - 1" using xs(2) by (cases xs) auto
  ultimately have lo: "0 \<le> i" by (simp add: i_def)
  have hi: "i < int (length xs)" by (simp add: i_def)
  from lo hi have "py_index xs i = Inr (xs ! nat i)" by (simp add: py_index_def Let_def)
  moreover from lo hi have "xs ! nat i \<in> set xs" by (intro nth_mem) linarith
  ultimately show ?thesis using xs by (simp add: list_to_value_def bind_e_def i_def)
qed

lemma param_to_value_ok:
  assumes "valid_param p \<or> \<not> known_mode p"
    and "\<not> is_fixed p" and "0 \<le> s" and "s \<le> 1"
  shows "\<exists>v. param_to_value p s = Inr v \<and> sampled_ok p v"
proof -
  consider "p_mode p = ''range''" | "p_mode p = ''list''"
    | "p_mode p \<noteq> ''range''" "p_mode p \<noteq> ''list''" by blast
  then show ?thesis
  proof cases
    case 1
    with assms(1) have "valid_range (p_type p) (p_values p)"
      by (auto simp: valid_param_def known_mode_def)
    from range_to_value_ok [OF this assms(3,4)] 1 show ?thesis
      by (simp add: param_to_value_def sampled_ok_def is_fixed_def)
  next
    case 2
    with assms(1) have "valid_list (p_values p)"
      by (auto simp: valid_param_def known_mode_def)
    from list_to_value_ok [OF this assms(3,4)] 2 show ?thesis
      by (simp add: param_to_value_def sampled_ok_def is_fixed_def)
  next
    case 3
    with assms(2) show ?thesis by (simp add: param_to_value_def sampled_ok_def)
  qed
qed

lemma map_of_update: "map_of (AList.update k v al) = (map_of al)(k \<mapsto> v)"
  by (rule update_conv')

lemma changing_loop:
  assumes "\<forall>j < length ps. i + j < length vec \<and>
             (\<exists>v. param_to_value (snd (ps ! j)) (vec ! (i + j)) = Inr v \<and> Q (snd (ps ! j)) v)"
  shows "\<exists>c. foldM_e (\<lambda>(i, name, p) sample.
            bind_e (nth_e vec i) (\<lambda>c.
            bind_e (param_to_value p c) (\<lambda>v. Inr (AList.update name v sample))))
          (zip [i ..< i + length ps] ps) acc = Inr c \<and>
         (\<forall>x. (x \<notin> fst ` set ps \<longrightarrow> map_of c x = map_of acc x) \<and>
              (x \<in> fst ` set ps \<longrightarrow> (\<exists>p v. (x, p) \<in> set ps \<and> map_of c x = Some v \<and> Q p v)))"
  using assms
proof (induction ps arbitrary: i acc)
  case Nil
  then show ?case by simp
next
  case (Cons np ps)
  obtain n p where np: "np = (n, p)" by (cases np)
  from Cons.prems [rule_format, of 0] np
  obtain v where v: "i < length vec" "param_to_value p (vec ! i) = Inr v" "Q p v"
    by auto
  have "\<forall>j < length ps. Suc i + j < length vec \<and>
          (\<exists>v. param_to_value (snd (ps ! j)) (vec ! (Suc i + j)) = Inr v \<and> Q (snd (ps ! j)) v)"
  proof (intro allI impI)
    fix j assume "j < length ps"
    with Cons.prems [rule_format, of "Suc j"] show "Suc i + j < length vec \<and>
          (\<exists>v. param_to_value (snd (ps ! j)) (vec ! (Suc i + j)) = Inr v \<and> Q (snd (ps ! j)) v)"
      by simp
  qed
  from Cons.IH [OF this, of "AList.update n v acc"]
  obtain c where c: "foldM_e (\<lambda>(i, name, p) sample.
            bind_e (nth_e vec i) (\<lambda>c.
            bind_e (param_to_value p c) (\<lambda>v. Inr (AList.update name v sample))))
          (zip [Suc i ..< Suc i + length ps] ps) (AList.update n v acc) = Inr c"
    and cx: "\<And>x. x \<notin> fst ` set ps \<Longrightarrow> map_of c x = map_of (AList.update n v acc) x"
    and cy: "\<And>x. x \<in> fst ` set ps \<Longrightarrow> \<exists>p v. (x, p) \<in> set ps \<and> map_of c x = Some v \<and> Q p v"
    by blast
  have z: "zip [i ..< i + length (np # ps)] (np # ps) =
             (i, n, p) # zip [Suc i ..< Suc i + length ps] ps"
    by (simp add: np upt_conv_Cons del: upt_Suc)
  have run: "foldM_e (\<lambda>(i, name, p) sample.
            bind_e (nth_e vec i) (\<lambda>c.
            bind_e (param_to_value p c) (\<lambda>v. Inr (AList.update name v sample))))
          (zip [i ..< i + length (np # ps)] (np # ps)) acc = Inr c"
    unfolding z using v c by (simp add: bind_e_def nth_e_def)
  show ?case
  proof (rule exI [of _ c], intro conjI allI impI)
    show "foldM_e (\<lambda>(i, name, p) sample.
            bind_e (nth_e vec i) (\<lambda>c.
            bind_e (param_to_value p c) (\<lambda>v. Inr (AList.update name v sample))))
          (zip [i ..< i + length (np # ps)] (np # ps)) acc = Inr c" by (rule run)
  next
    fix x assume "x \<notin> fst ` set (np # ps)"
    then have "x \<noteq> n" "x \<notin> fst ` set ps" by (auto simp: np)
    then show "map_of c x = map_of acc x" using cx by (simp add: map_of_update)
  next
    fix x assume x: "x \<in> fst ` set (np # ps)"
    show "\<exists>p v. (x, p) \<in> set (np # ps) \<and> map_of c x = Some v \<and> Q p v"
    proof (cases "x \<in> fst ` set ps")
      case True
      from cy [OF this] show ?thesis by auto
    next
      case False
      with x have "x = n" by (auto simp: np)
      with cx [OF False] v(3) show ?thesis by (auto simp: np map_of_update)
    qed
  qed
qed

lemma fixed_loop:
  "(x \<notin> fst ` set fs \<longrightarrow>
      map_of (fold (\<lambda>(name, p) sample. AList.update name (p_values p) sample) fs acc) x =
      map_of acc x) \<and>
   (x \<in> fst ` set fs \<longrightarrow>
      (\<exists>p. (x, p) \<in> set fs \<and>
         map_of (fold (\<lambda>(name, p) sample. AList.update name (p_values p) sample) fs acc) x =
         Some (p_values p)))"
proof (induction fs arbitrary: acc)
  case Nil
  then show ?case by simp
next
  case (Cons a fs)
  obtain n p where a: "a = (n, p)" by (cases a)
  show ?case
  proof (cases "x \<in> fst ` set fs")
    case True
    with Cons [of "AList.update n (p_values p) acc"] show ?thesis by (auto simp: a)
  next
    case False
    with Cons [of "AList.update n (p_values p) acc"] show ?thesis
      by (auto simp: a map_of_update)
  qed
qed


lemma dict_value_unique:
  "distinct (map fst ps) \<Longrightarrow> (x, p) \<in> set ps \<Longrightarrow> (x, q) \<in> set ps \<Longrightarrow> p = q"
  by (rule eq_key_imp_eq_value)

lemma make_sample_ok:
  assumes dist: "distinct (map fst space)"
    and ok: "\<forall>(x, p) \<in> set space. valid_param p \<or> \<not> known_mode p"
    and len: "length vec = length space"
    and unit: "\<forall>s \<in> set vec. 0 \<le> s \<and> s \<le> 1"
  shows "\<exists>c. make_sample (filter (\<lambda>(x, p). \<not> is_fixed p) space)
                 (filter (\<lambda>(x, p). is_fixed p) space) vec = Inr c \<and>
             (\<forall>(x, p) \<in> set space. \<exists>v. map_of c x = Some v \<and> sampled_ok p v)"
proof -
  let ?ch = "filter (\<lambda>(x, p). \<not> is_fixed p) space"
  let ?fx = "filter (\<lambda>(x, p). is_fixed p) space"
  have lch: "length ?ch \<le> length vec" using len by simp
  have "\<forall>j < length ?ch. 0 + j < length vec \<and>
          (\<exists>v. param_to_value (snd (?ch ! j)) (vec ! (0 + j)) = Inr v \<and>
               sampled_ok (snd (?ch ! j)) v)"
  proof (intro allI impI conjI)
    fix j assume j: "j < length ?ch"
    with lch show "0 + j < length vec" by simp
    then have "vec ! j \<in> set vec" by simp
    with unit have u: "0 \<le> vec ! j" "vec ! j \<le> 1" by auto
    from j have "?ch ! j \<in> set ?ch" by (rule nth_mem)
    then have "(fst (?ch ! j), snd (?ch ! j)) \<in> set space" "\<not> is_fixed (snd (?ch ! j))"
      by (auto simp: case_prod_beta)
    with ok have "valid_param (snd (?ch ! j)) \<or> \<not> known_mode (snd (?ch ! j))" by blast
    from param_to_value_ok [OF this \<open>\<not> is_fixed (snd (?ch ! j))\<close> u]
    show "\<exists>v. param_to_value (snd (?ch ! j)) (vec ! (0 + j)) = Inr v \<and>
               sampled_ok (snd (?ch ! j)) v" by simp
  qed
  from changing_loop [where Q = sampled_ok and acc = "[]", OF this]
  obtain c1 where c1: "foldM_e (\<lambda>(i, name, p) sample.
            bind_e (nth_e vec i) (\<lambda>c.
            bind_e (param_to_value p c) (\<lambda>v. Inr (AList.update name v sample))))
          (zip [0 ..< length ?ch] ?ch) [] = Inr c1"
    and c1y: "\<And>x. x \<in> fst ` set ?ch \<Longrightarrow>
               \<exists>p v. (x, p) \<in> set ?ch \<and> map_of c1 x = Some v \<and> sampled_ok p v"
    by auto
  let ?c = "fold (\<lambda>(name, p) sample. AList.update name (p_values p) sample) ?fx c1"
  have run: "make_sample ?ch ?fx vec = Inr ?c"
    using c1 by (simp add: make_sample_def bind_e_def)
  have "\<forall>(x, p) \<in> set space. \<exists>v. map_of ?c x = Some v \<and> sampled_ok p v"
  proof (intro ballI, clarify)
    fix x p assume xp: "(x, p) \<in> set space"
    show "\<exists>v. map_of ?c x = Some v \<and> sampled_ok p v"
    proof (cases "is_fixed p")
      case True
      with xp have "x \<in> fst ` set ?fx" by force
      with fixed_loop [of x ?fx c1]
      obtain q where q: "(x, q) \<in> set ?fx" "map_of ?c x = Some (p_values q)" by blast
      then have "(x, q) \<in> set space" by simp
      with dist xp have "q = p" by (metis dict_value_unique)
      with q True show ?thesis by (simp add: sampled_ok_def)
    next
      case False
      have "x \<notin> fst ` set ?fx"
      proof
        assume "x \<in> fst ` set ?fx"
        then obtain q where q: "(x, q) \<in> set space" "is_fixed q" by auto
        with dist xp have "q = p" by (metis dict_value_unique)
        with q False show False by simp
      qed
      with fixed_loop [of x ?fx c1] have eq: "map_of ?c x = map_of c1 x" by blast
      from xp False have "x \<in> fst ` set ?ch" by force
      from c1y [OF this] obtain q v where
        q: "(x, q) \<in> set ?ch" "map_of c1 x = Some v" "sampled_ok q v" by blast
      then have "(x, q) \<in> set space" by simp
      with dist xp have "q = p" by (metis dict_value_unique)
      with q eq show ?thesis by simp
    qed
  qed
  with run show ?thesis by blast
qed

lemma mapM_e_all:
  assumes "\<forall>x \<in> set xs. \<exists>y. f x = Inr y \<and> P y"
  shows "\<exists>ys. mapM_e f xs = Inr ys \<and> length ys = length xs \<and> (\<forall>y \<in> set ys. P y)"
  using assms
proof (induction xs)
  case Nil
  then show ?case by simp
next
  case (Cons x xs)
  then obtain y ys where "f x = Inr y" "P y" "mapM_e f xs = Inr ys"
    "length ys = length xs" "\<forall>y \<in> set ys. P y" by auto
  then show ?case by (simp add: bind_e_def)
qed

lemma sampling_general:
  assumes dist: "distinct (map fst space)"
    and ok: "\<forall>(x, p) \<in> set space. valid_param p \<or> \<not> known_mode p"
    and pts: "unit_points sobol (length space) n"
  shows "\<exists>seq. compute_param_combinations sobol space n = Inr seq \<and> length seq = n \<and>
           (\<forall>c \<in> set seq. \<forall>(x, p) \<in> set space. \<exists>v. map_of c x = Some v \<and> sampled_ok p v)"
proof -
  from pts obtain ps where ps: "sobol (length space) n = Inr ps" "length ps = n"
    "\<forall>vec \<in> set ps. length vec = length space \<and> (\<forall>s \<in> set vec. 0 \<le> s \<and> s \<le> 1)"
    by (auto simp: unit_points_def list_all_iff split: sum.splits)
  have "\<forall>vec \<in> set ps. \<exists>c.
          make_sample (filter (\<lambda>(x, p). \<not> is_fixed p) space)
            (filter (\<lambda>(x, p). is_fixed p) space) vec = Inr c \<and>
          (\<forall>(x, p) \<in> set space. \<exists>v. map_of c x = Some v \<and> sampled_ok p v)"
    using make_sample_ok [OF dist ok] ps(3) by blast
  from mapM_e_all [OF this] ps(1,2) show ?thesis
    by (simp add: compute_param_combinations_def bind_e_def)
qed


text \<open>
  When every mode string \<open>fixed\<close> of the space is the interned literal, sampling behaves as
  described: for distinct names, valid descriptions and a generator that returns \<open>n\<close> points
  of the unit cube it returns exactly \<open>n\<close> configurations; in each of them a range-mode
  parameter has a numeric value within \<open>[min, max]\<close>, a list-mode parameter has an element
  of its declared list, and a fixed-mode parameter has its declared value.
\<close>

lemma sampling_literal_modes:
  assumes "distinct (map fst space)"
    and "\<forall>(x, p) \<in> set space. valid_param p"
    and "literal_modes space"
    and "unit_points sobol (length space) n"
  shows "\<exists>seq. compute_param_combinations sobol space n = Inr seq \<and> length seq = n \<and>
           (\<forall>c \<in> set seq. \<forall>(x, p) \<in> set space.
              (p_mode p = ''range'' \<longrightarrow> (\<exists>v. map_of c x = Some v \<and> in_range (p_values p) v)) \<and>
              (p_mode p = ''list'' \<longrightarrow> (\<exists>v. map_of c x = Some v \<and> in_list (p_values p) v)) \<and>
              (p_mode p = ''fixed'' \<longrightarrow> map_of c x = Some (p_values p)))"
proof -
  from assms(2) have "\<forall>(x, p) \<in> set space. valid_param p \<or> \<not> known_mode p" by blast
  from sampling_general [OF assms(1) this assms(4)]
  obtain seq where seq: "compute_param_combinations sobol space n = Inr seq" "length seq = n"
    "\<forall>c \<in> set seq. \<forall>(x, p) \<in> set space. \<exists>v. map_of c x = Some v \<and> sampled_ok p v"
    by blast
  from assms(3) have lit: "\<forall>(x, p) \<in> set space. p_mode p = ''fixed'' \<longrightarrow> is_fixed p"
    by (auto simp: literal_modes_def list_all_iff is_fixed_def)
  have "\<forall>c \<in> set seq. \<forall>(x, p) \<in> set space.
              (p_mode p = ''range'' \<longrightarrow> (\<exists>v. map_of c x = Some v \<and> in_range (p_values p) v)) \<and>
              (p_mode p = ''list'' \<longrightarrow> (\<exists>v. map_of c x = Some v \<and> in_list (p_values p) v)) \<and>
              (p_mode p = ''fixed'' \<longrightarrow> map_of c x = Some (p_values p))"
  proof (intro ballI, clarify)
    fix c x p assume c: "c \<in> set seq" and xp: "(x, p) \<in> set space"
    with seq(3) obtain v where v: "map_of c x = Some v" "sampled_ok p v" by blast
    from lit xp have f: "p_mode p = ''fixed'' \<longrightarrow> is_fixed p" by blast
    from v f show "(p_mode p = ''range'' \<longrightarrow> (\<exists>v. map_of c x = Some v \<and> in_range (p_values p) v)) \<and>
              (p_mode p = ''list'' \<longrightarrow> (\<exists>v. map_of c x = Some v \<and> in_list (p_values p) v)) \<and>
              (p_mode p = ''fixed'' \<longrightarrow> map_of c x = Some (p_values p))"
      by (auto simp: sampled_ok_def is_fixed_def)
  qed
  with seq(1,2) show ?thesis by blast
qed

lemma sampling_literal_modes_instance:
  "compute_param_combinations ex_sobol ex_space 2 =
     Inr [[(''n_components'', VInt 27), (''init'', VStr ''nndsvda''), (''solver'', VStr ''mu'')],
          [(''n_components'', VInt 38), (''init'', VStr ''nndsvd''), (''solver'', VStr ''mu'')]]"
  by code_simp

text \<open>
  C7 (the code at a failing input): \<open>ex_runtime_space\<close> is a valid space with one fixed-mode
  parameter, declared value \<open>"mu"\<close>, whose mode string equals \<open>"fixed"\<close> but was built at run
  time. The test \<open>is "fixed"\<close> is false for it, so the parameter is classed as changing,
  \<open>_param_to_value\<close> (which compares with \<open>==\<close>) finds neither \<open>range\<close> nor \<open>list\<close>, and the
  configuration gives the parameter \<open>None\<close> instead of its declared value.
\<close>

theorem sampling_fixed_identity_slip:
  "distinct (map fst ex_runtime_space) \<and> list_all (\<lambda>(x, p). valid_param p) ex_runtime_space \<and>
   unit_points ex_sobol (length ex_runtime_space) 1 \<and>
   map (\<lambda>(x, p). (x, p_mode p, p_values p)) ex_runtime_space = [(''solver'', ''fixed'', VStr ''mu'')] \<and>
   compute_param_combinations ex_sobol ex_runtime_space 1 = Inr [[(''solver'', VNone)]]"
  by (simp add: ex_runtime_space_def valid_param_def unit_points_def ex_sobol_def
      compute_param_combinations_def is_fixed_def make_sample_def bind_e_def nth_e_def
      param_to_value_def)

text \<open>
  C5 (as the code behaves): a parameter whose mode is none of \<open>fixed\<close>, \<open>range\<close>, \<open>list\<close>
  raises nothing at sampling time. When the other descriptions are valid and the generator
  returns \<open>n\<close> points, sampling returns \<open>n\<close> configurations and each of them maps that
  parameter to \<open>None\<close>.
\<close>

theorem unknown_mode_sampled_none:
  assumes "distinct (map fst space)"
    and "\<forall>(x, p) \<in> set space. valid_param p \<or> \<not> known_mode p"
    and "unit_points sobol (length space) n"
  shows "\<exists>seq. compute_param_combinations sobol space n = Inr seq \<and> length seq = n \<and>
           (\<forall>c \<in> set seq. \<forall>(x, p) \<in> set space.
              \<not> known_mode p \<longrightarrow> map_of c x = Some VNone)"
proof -
  from sampling_general [OF assms]
  obtain seq where seq: "compute_param_combinations sobol space n = Inr seq" "length seq = n"
    "\<forall>c \<in> set seq. \<forall>(x, p) \<in> set space. \<exists>v. map_of c x = Some v \<and> sampled_ok p v"
    by blast
  from seq(3) have "\<forall>c \<in> set seq. \<forall>(x, p) \<in> set space.
              \<not> known_mode p \<longrightarrow> map_of c x = Some VNone"
    by (fastforce simp: sampled_ok_def known_mode_def is_fixed_def)
  with seq(1,2) show ?thesis by blast
qed


theorem unknown_mode_sampled_none_witness:
  "distinct (map fst ex_odd_space) \<and>
   list_all (\<lambda>(x, p). valid_param p \<or> \<not> known_mode p) ex_odd_space \<and>
   unit_points ex_sobol (length ex_odd_space) 1 \<and>
   \<not> known_mode (snd (hd ex_odd_space)) \<and>
   (\<exists>seq. compute_param_combinations ex_sobol ex_odd_space 1 = Inr seq \<and> length seq = 1 \<and>
      (\<forall>c \<in> set seq. \<forall>(x, p) \<in> set ex_odd_space.
         \<not> known_mode p \<longrightarrow> map_of c x = Some VNone))"
proof -
  have h1: "distinct (map fst ex_odd_space)" by (simp add: ex_odd_space_def)
  have h2: "\<forall>(x, p) \<in> set ex_odd_space. valid_param p \<or> \<not> known_mode p"
    by (simp add: ex_odd_space_def known_mode_def)
  have h3: "unit_points ex_sobol (length ex_odd_space) 1"
    by (simp add: unit_points_def ex_sobol_def ex_odd_space_def)
  have h4: "\<not> known_mode (snd (hd ex_odd_space))"
    by (simp add: ex_odd_space_def known_mode_def)
  have h2': "list_all (\<lambda>(x, p). valid_param p \<or> \<not> known_mode p) ex_odd_space"
    using h2 by (simp add: list_all_iff)
  from unknown_mode_sampled_none [OF h1 h2 h3] h1 h2' h3 h4 show ?thesis by blast
qed

text \<open>
  The claim C5 as stated fails: the space \<open>ex_odd_space\<close> declares a parameter of mode
  \<open>uniform\<close>, and sampling one point returns a configuration that gives it \<open>None\<close>.
\<close>

theorem unknown_mode_no_error_counterexample:
  "\<not> known_mode (snd (hd ex_odd_space)) \<and>
   compute_param_combinations ex_sobol ex_odd_space 1 = Inr [[(''alpha'', VNone)]]"
  by (simp add: ex_odd_space_def known_mode_def compute_param_combinations_def ex_sobol_def
      is_fixed_def make_sample_def bind_e_def nth_e_def param_to_value_def)

subsection \<open>The vocabulary of the rank vectors\<close>

lemma vocab_update_set: "set (vocab_update v es) = set v \<union> set es"
  unfolding vocab_update_def by (induction es arbitrary: v) auto

lemma vocab_update_distinct: "distinct v \<Longrightarrow> distinct (vocab_update v es)"
  unfolding vocab_update_def by (induction es arbitrary: v) auto

lemma collect_inner:
  "fold (\<lambda>m (vocab, terms).
           (let top_terms = get_top_terms E m k
            in (vocab_update vocab (concat top_terms), terms @ [top_terms])))
     sample (v, ts) =
   (fold (\<lambda>m vocab. vocab_update vocab (concat (get_top_terms E m k))) sample v,
    ts @ map (\<lambda>m. get_top_terms E m k) sample)"
  by (induction sample arbitrary: v ts) (simp_all add: Let_def)

lemma collect_terms_eq:
  "collect_terms E k sams =
     (fold (\<lambda>sample vocab. fold (\<lambda>m vocab. vocab_update vocab (concat (get_top_terms E m k))) sample vocab) sams [],
      map (map (\<lambda>m. get_top_terms E m k)) sams)"
proof -
  have "fold (\<lambda>sample (vocab, sample_terms).
        (case fold (\<lambda>m (vocab, terms).
                 (let top_terms = get_top_terms E m k
                  in (vocab_update vocab (concat top_terms), terms @ [top_terms])))
               sample (vocab, [])
         of (vocab', terms) \<Rightarrow> (vocab', sample_terms @ [terms])))
       sams (v, ts) =
     (fold (\<lambda>sample vocab. fold (\<lambda>m vocab. vocab_update vocab (concat (get_top_terms E m k))) sample vocab) sams v,
      ts @ map (map (\<lambda>m. get_top_terms E m k)) sams)" for v ts
    by (induction sams arbitrary: v ts) (simp_all add: collect_inner)
  then show ?thesis by (simp add: collect_terms_def)
qed

lemma fold_models_set:
  "set (fold (\<lambda>m vocab. vocab_update vocab (concat (get_top_terms E m k))) sample v) =
     set v \<union> (\<Union>m \<in> set sample. \<Union>t \<in> set (get_top_terms E m k). set t)"
  by (induction sample arbitrary: v) (auto simp: vocab_update_set)

lemma fold_models_distinct:
  "distinct v \<Longrightarrow>
   distinct (fold (\<lambda>m vocab. vocab_update vocab (concat (get_top_terms E m k))) sample v)"
  by (induction sample arbitrary: v) (auto simp: vocab_update_distinct)

lemma fold_samples_set:
  "set (fold (\<lambda>sample vocab. fold (\<lambda>m vocab. vocab_update vocab (concat (get_top_terms E m k))) sample vocab) sams v) =
     set v \<union> (\<Union>sample \<in> set sams. \<Union>m \<in> set sample. \<Union>t \<in> set (get_top_terms E m k). set t)"
  by (induction sams arbitrary: v) (auto simp: fold_models_set)

lemma fold_samples_distinct:
  "distinct v \<Longrightarrow>
   distinct (fold (\<lambda>sample vocab. fold (\<lambda>m vocab. vocab_update vocab (concat (get_top_terms E m k))) sample vocab) sams v)"
  by (induction sams arbitrary: v) (auto simp: fold_models_distinct)

lemma mapM_e_Inr_map:
  "mapM_e f xs = Inr ys \<Longrightarrow> (\<And>x y. x \<in> set xs \<Longrightarrow> f x = Inr y \<Longrightarrow> y = g x) \<Longrightarrow> ys = map g xs"
  by (induction xs arbitrary: ys) (auto simp: bind_e_def split: sum.splits)

text \<open>
  C3 (as the code behaves): the vocabulary is built once per call of
  \<open>_create_ranking_vectors\<close>, that is once per model-family context and not per
  configuration: it is exactly the union of the feature indices in the top-k lists of all
  artifacts of all run-groups of the context (without repetition), and the rank vectors of
  every configuration are built over this one vocabulary.
\<close>

theorem vocabulary_per_context:
  "set (fst (collect_terms E k (samples st))) =
     (\<Union>sample \<in> set (samples st). \<Union>m \<in> set sample. \<Union>t \<in> set (get_top_terms E m k). set t) \<and>
   distinct (fst (collect_terms E k (samples st))) \<and>
   (\<forall>rv. create_ranking_vectors E k st = Inr rv \<longrightarrow>
      rv = map (map (\<lambda>m. map (\<lambda>t. terms_to_ranking t (fst (collect_terms E k (samples st))))
                         (get_top_terms E m k)))
             (samples st))"
proof (intro conjI allI impI)
  show "set (fst (collect_terms E k (samples st))) =
     (\<Union>sample \<in> set (samples st). \<Union>m \<in> set sample. \<Union>t \<in> set (get_top_terms E m k). set t)"
    by (simp add: collect_terms_eq fold_samples_set)
  show "distinct (fst (collect_terms E k (samples st)))"
    by (simp add: collect_terms_eq fold_samples_distinct)
next
  fix rv assume rv: "create_ranking_vectors E k st = Inr rv"
  let ?vocab = "fst (collect_terms E k (samples st))"
  from rv have "mapM_e (\<lambda>sample.
                np_array3 (map (\<lambda>model_terms. map (\<lambda>t. terms_to_ranking t ?vocab) model_terms)
                             sample))
              (map (map (\<lambda>m. get_top_terms E m k)) (samples st)) = Inr rv"
    by (simp add: create_ranking_vectors_def collect_terms_eq)
  then have "rv = map (\<lambda>sample. map (\<lambda>model_terms. map (\<lambda>t. terms_to_ranking t ?vocab) model_terms)
                             sample) (map (map (\<lambda>m. get_top_terms E m k)) (samples st))"
    by (rule mapM_e_Inr_map) (auto simp: np_array3_def split: if_splits)
  then show "rv = map (map (\<lambda>m. map (\<lambda>t. terms_to_ranking t ?vocab) (get_top_terms E m k)))
             (samples st)"
    by (simp add: comp_def)
qed

theorem vocabulary_per_context_witness:
  "create_ranking_vectors ex_lib 2 ex_two = Inr
      [[[[0, 1, 5, 5, 5], [5, 5, 0, 1, 5]], [[0, 1, 5, 5, 5], [5, 5, 0, 1, 5]]],
       [[[5, 1, 5, 5, 0], [5, 0, 5, 1, 5]], [[5, 1, 5, 5, 0], [5, 0, 5, 1, 5]]]] \<and>
   [[[[0, 1, 5, 5, 5], [5, 5, 0, 1, 5]], [[0, 1, 5, 5, 5], [5, 5, 0, 1, 5]]],
    [[[5, 1, 5, 5, 0], [5, 0, 5, 1, 5]], [[5, 1, 5, 5, 0], [5, 0, 5, 1, 5]]]] =
     map (map (\<lambda>m. map (\<lambda>t. terms_to_ranking t (fst (collect_terms ex_lib 2 (samples ex_two))))
                       (get_top_terms ex_lib m 2)))
       (samples ex_two)"
proof -
  have "create_ranking_vectors ex_lib 2 ex_two = Inr
      [[[[0, 1, 5, 5, 5], [5, 5, 0, 1, 5]], [[0, 1, 5, 5, 5], [5, 5, 0, 1, 5]]],
       [[[5, 1, 5, 5, 0], [5, 0, 5, 1, 5]], [[5, 1, 5, 5, 0], [5, 0, 5, 1, 5]]]]"
    by code_simp
  with vocabulary_per_context [of ex_lib 2 ex_two] show ?thesis by blast
qed

text \<open>
  The claim C3 as stated fails: in \<open>ex_two\<close> the run-group of the first configuration has the
  top terms 1, 2, 3, 4 only, but the vocabulary also holds the index 0, which comes from the
  second configuration's run-group alone, and the rank vectors of the first configuration
  have five entries.
\<close>

theorem vocabulary_shared_counterexample:
  "fst (collect_terms ex_lib 2 (samples ex_two)) = [1, 2, 4, 3, 0] \<and>
   (\<Union>m \<in> set (samples ex_two ! 0). \<Union>t \<in> set (get_top_terms ex_lib m 2). set t) = {1, 2, 3, 4} \<and>
   create_ranking_vectors ex_lib 2 ex_two = Inr
      [[[[0, 1, 5, 5, 5], [5, 5, 0, 1, 5]], [[0, 1, 5, 5, 5], [5, 5, 0, 1, 5]]],
       [[[5, 1, 5, 5, 0], [5, 0, 5, 1, 5]], [[5, 1, 5, 5, 0], [5, 0, 5, 1, 5]]]]"
  by code_simp

subsection \<open>The example run\<close>

lemma ex_fit_models:
  "fit_models ex_fit ex_lib (ex_loaded [[(''n_components'', VInt 2)]]) 0 = (None, ex_fitted, 2)"
  by code_simp

lemma ex_load:
  "load_sklearn_lda_data (\<lambda>d n. Inr [[1 / 2]]) () 1 ''custom'' (Some ex_custom) (init 2 2) =
     Inr (ex_loaded [[(''n_components'', VInt 2)]])"
  by code_simp

subsection \<open>Ranking\<close>

lemma rank_models_no_attribute:
  assumes "rank_metric self = None" and "weights \<noteq> []"
    and "concat (map (\<lambda>(name, st). report st) (models self)) \<noteq> []"
  shows "rank_models self weights ranking = Inl AttributeError"
proof -
  obtain s ss where s: "concat (map (\<lambda>(name, st). report st) (models self)) = s # ss"
    using assms(3) by (cases "concat (map (\<lambda>(name, st). report st) (models self))") auto
  obtain w ws where w: "weights = w # ws" using assms(2) by (cases weights) auto
  have "rank_key self weights s = Inl AttributeError"
    by (simp add: rank_key_def weighted_def report_item_def bind_e_def py_index_def
        get_attr_def assms(1) w)
  then show ?thesis by (simp add: rank_models_def s bind_e_def)
qed

text \<open>
  C1 (the code at a failing input): \<open>ex_fitted\<close> is the object after \<open>RobustTopics(2, 2)\<close>,
  loading one configuration and \<open>fit_models\<close>; it stores one report. \<open>rank_models\<close> with the
  default arguments raises \<open>AttributeError\<close>, because the key function reads
  \<open>self.rank_metric\<close>, which no method of the class assigns.
\<close>

theorem rank_models_attribute_error:
  "rank_models ex_fitted [1, 1, 1]
      [(''jensenshannon'', 1), (''jaccard'', 1), (''kendalltau'', 1)] = Inl AttributeError"
  by code_simp

subsection \<open>Inspection\<close>

text \<open>
  C4 (the code at a failing input): on \<open>ex_fitted\<close> both runs have the top terms \<open>[1, 2]\<close> for
  topic 0 and \<open>[4, 3]\<close> for topic 1. The intersection for topic 1 across the runs is
  \<open>{3, 4}\<close>, but \<open>analyse_sample\<close> prints the empty line for it: the start value of the
  intersection is \<open>topic_terms[sample_id][topic][0]\<close>, the terms of topic 0 of run number
  \<open>topic\<close>.
\<close>

theorem analyse_sample_start_slip:
  "analyse_sample ex_fitted ''sklearn_lda'' 0 [''a'', ''b'', ''c'', ''d'', ''e''] =
     (None, [(0, ''b c''), (1, [])]) \<and>
   spec_topic_intersection (hd (topic_terms (snd (hd (models ex_fitted))))) 1 = {3, 4}"
  by code_simp

subsection \<open>Fitting: what a call leaves behind\<close>

lemma frame_ok_refl: "frame_ok st st"
  by (simp add: frame_ok_def)

lemma frame_ok_trans: "frame_ok a b \<Longrightarrow> frame_ok b c \<Longrightarrow> frame_ok a c"
  unfolding frame_ok_def by (auto intro: prefix_order.trans)

lemma fit_iteration_length:
  "fit_iteration F name sample dat acc w = (Inr ms, w') \<Longrightarrow>
     length ms = length acc + run_count 1 name"
  by (auto simp: fit_iteration_def run_count_def split: if_splits prod.splits sum.splits)

lemma fit_iterations_length:
  "fit_iterations F name sample dat its acc w = (Inr ms, w') \<Longrightarrow>
     length ms = length acc + length its * run_count 1 name"
proof (induction its arbitrary: acc w)
  case Nil
  then show ?case by simp
next
  case (Cons it its)
  then show ?case
    by (auto split: prod.splits sum.splits dest!: fit_iteration_length)
qed

lemma run_group_complete:
  assumes "fit_iterations F name sample dat [1 .. n_it] [] w = (Inr ms, w')"
  shows "length ms = run_count n_it name"
proof -
  have "length [1 .. n_it] = nat n_it" by simp
  with fit_iterations_length [OF assms] show ?thesis
    by (simp add: run_count_def)
qed

lemma fit_samples_progress:
  "fit_samples F n_it name cfgs st w = (r, st', w') \<Longrightarrow>
     (\<exists>groups. st' = st\<lparr>samples := samples st @ groups\<rparr> \<and>
        (\<forall>g \<in> set groups. length g = run_count n_it name) \<and>
        (r = None \<longrightarrow> length groups = length cfgs) \<and>
        (r \<noteq> None \<longrightarrow> length groups < length cfgs))"
proof (induction cfgs arbitrary: st w)
  case Nil
  then show ?case by auto
next
  case (Cons c cfgs)
  show ?case
  proof (cases "fit_iterations F name c (data st) [1 .. n_it] [] w")
    case (Pair res w1)
    show ?thesis
    proof (cases res)
      case (Inl e)
      with Pair Cons.prems have "r = Some e" "st' = st" by auto
      then show ?thesis by (intro exI [of _ "[]"]) simp
    next
      case (Inr ms)
      with Pair Cons.prems have rec:
        "fit_samples F n_it name cfgs (st\<lparr>samples := samples st @ [ms]\<rparr>) w1 = (r, st', w')"
        by simp
      from Pair Inr have len: "length ms = run_count n_it name"
        by (auto dest: run_group_complete)
      from Cons.IH [OF rec] obtain groups where g:
        "st' = st\<lparr>samples := samples st @ [ms]\<rparr>\<lparr>samples := samples (st\<lparr>samples := samples st @ [ms]\<rparr>) @ groups\<rparr>"
        "\<forall>g \<in> set groups. length g = run_count n_it name"
        "r = None \<longrightarrow> length groups = length cfgs"
        "r \<noteq> None \<longrightarrow> length groups < length cfgs"
        by blast
      show ?thesis
        by (rule exI [of _ "ms # groups"]) (use g len in auto)
    qed
  qed
qed

lemma fit_samples_fit_only:
  assumes "fit_samples F n_it name (sampling st) st w = (r, st', w')"
  shows "fit_only n_it (name, st) (name, st')"
    and "r \<noteq> None \<Longrightarrow> length (appended_groups st st') < length (sampling st)"
proof -
  from fit_samples_progress [OF assms] obtain groups where g:
    "st' = st\<lparr>samples := samples st @ groups\<rparr>"
    "\<forall>g \<in> set groups. length g = run_count n_it name"
    "r = None \<longrightarrow> length groups = length (sampling st)"
    "r \<noteq> None \<longrightarrow> length groups < length (sampling st)"
    by blast
  have le: "length groups \<le> length (sampling st)" using g(3,4) by (cases r) auto
  show "fit_only n_it (name, st) (name, st')"
    using g(1,2) le by (simp add: fit_only_def appended_groups_def list_all_iff)
  show "r \<noteq> None \<Longrightarrow> length (appended_groups st st') < length (sampling st)"
    using g(1,4) by (simp add: appended_groups_def)
qed

lemma fit_only_refl: "fit_only n_it (name, st) (name, st)"
  by (simp add: fit_only_def appended_groups_def)

lemma fit_only_refl_list: "list_all2 (fit_only n_it) ms ms"
  by (rule list_all2_refl) (auto simp: fit_only_def appended_groups_def)

lemma fit_all_progress:
  "fit_all F n_it ms w = (r, ms', w') \<Longrightarrow>
     list_all2 (fit_only n_it) ms ms' \<and>
     (r \<noteq> None \<longrightarrow>
        (\<exists>i < length ms. length (appended_groups (snd (ms ! i)) (snd (ms' ! i)))
                          < length (sampling (snd (ms ! i)))))"
proof (induction ms arbitrary: w r ms' w')
  case Nil
  then show ?case by auto
next
  case (Cons a ms)
  obtain name st where a: "a = (name, st)" by (cases a)
  obtain r1 st1 w1 where s: "fit_samples F n_it name (sampling st) st w = (r1, st1, w1)"
    by (cases "fit_samples F n_it name (sampling st) st w")
  note fo = fit_samples_fit_only [OF s]
  show ?case
  proof (cases r1)
    case (Some e)
    with s a Cons.prems have eq: "r = Some e" "ms' = (name, st1) # ms" by auto
    from fo(2) Some have "length (appended_groups st st1) < length (sampling st)" by simp
    then have "\<exists>i < length (a # ms). length (appended_groups (snd ((a # ms) ! i)) (snd (ms' ! i)))
                          < length (sampling (snd ((a # ms) ! i)))"
      by (intro exI [of _ 0]) (simp add: a eq)
    with fo(1) show ?thesis by (simp add: a eq fit_only_refl_list)
  next
    case None
    obtain r2 ms2 w2 where rest: "fit_all F n_it ms w1 = (r2, ms2, w2)"
      by (cases "fit_all F n_it ms w1")
    with None s a Cons.prems have eq: "r = r2" "ms' = (name, st1) # ms2" by auto
    from Cons.IH [OF rest] have ih: "list_all2 (fit_only n_it) ms ms2"
      "r2 \<noteq> None \<longrightarrow> (\<exists>i < length ms. length (appended_groups (snd (ms ! i)) (snd (ms2 ! i)))
                          < length (sampling (snd (ms ! i))))" by auto
    have "r \<noteq> None \<longrightarrow> (\<exists>i < length (a # ms).
             length (appended_groups (snd ((a # ms) ! i)) (snd (ms' ! i)))
               < length (sampling (snd ((a # ms) ! i))))"
    proof
      assume "r \<noteq> None"
      with ih(2) eq obtain i where "i < length ms"
        "length (appended_groups (snd (ms ! i)) (snd (ms2 ! i))) < length (sampling (snd (ms ! i)))"
        by auto
      then show "\<exists>i < length (a # ms).
             length (appended_groups (snd ((a # ms) ! i)) (snd (ms' ! i)))
               < length (sampling (snd ((a # ms) ! i)))"
        by (intro exI [of _ "Suc i"]) (simp add: eq)
    qed
    with fo(1) ih(1) show ?thesis by (simp add: a eq)
  qed
qed

lemma stability_sample_frame:
  "stability_sample E k name rv sid sample st = (r, st') \<Longrightarrow> frame_ok st st'"
  by (auto simp: stability_sample_def frame_ok_def Let_def split: sum.splits prod.splits)

lemma stability_samples_frame:
  "stability_samples E k name rv xs st = (r, st') \<Longrightarrow> frame_ok st st'"
proof (induction xs arbitrary: st)
  case Nil
  then show ?case by (simp add: frame_ok_refl)
next
  case (Cons x xs)
  obtain sid sample where x: "x = (sid, sample)" by (cases x)
  obtain r1 st1 where b: "stability_sample E k name rv sid sample st = (r1, st1)"
    by (cases "stability_sample E k name rv sid sample st")
  note f1 = stability_sample_frame [OF b]
  show ?case
  proof (cases r1)
    case None
    with Cons.prems x b have "stability_samples E k name rv xs st1 = (r, st')" by simp
    from Cons.IH [OF this] f1 show ?thesis by (rule frame_ok_trans [rotated])
  next
    case (Some e)
    with Cons.prems x b f1 show ?thesis by simp
  qed
qed

lemma same_family_refl_list: "list_all2 same_family ms ms"
  by (rule list_all2_refl) (auto simp: same_family_def frame_ok_refl)

lemma stability_models_frame:
  "stability_models E k ms = (r, ms') \<Longrightarrow> list_all2 same_family ms ms'"
proof (induction ms arbitrary: r ms')
  case Nil
  then show ?case by simp
next
  case (Cons a ms)
  obtain name st where a: "a = (name, st)" by (cases a)
  show ?case
  proof (cases "create_ranking_vectors E k st")
    case (Inl e)
    with Cons.prems a show ?thesis by (auto simp: same_family_refl_list)
  next
    case (Inr rv)
    obtain r1 st1 where b:
      "stability_samples E k name rv (zip [0 ..< length (samples st)] (samples st)) st = (r1, st1)"
      by (cases "stability_samples E k name rv (zip [0 ..< length (samples st)] (samples st)) st")
    from stability_samples_frame [OF b] have f: "same_family (name, st) (name, st1)"
      by (simp add: same_family_def)
    show ?thesis
    proof (cases r1)
      case (Some e)
      with Cons.prems a Inr b have "ms' = (name, st1) # ms" by auto
      with f show ?thesis by (simp add: a same_family_refl_list)
    next
      case None
      obtain r2 ms2 where rest: "stability_models E k ms = (r2, ms2)"
        by (cases "stability_models E k ms")
      with None Cons.prems a Inr b have "ms' = (name, st1) # ms2" by auto
      with f Cons.IH [OF rest] show ?thesis by (simp add: a)
    qed
  qed
qed

lemma fit_only_same_family: "fit_only n_it a b \<Longrightarrow> same_family a b"
proof -
  assume h: "fit_only n_it a b"
  obtain name st where a: "a = (name, st)" by (cases a)
  obtain name' st' where b: "b = (name', st')" by (cases b)
  from h have eq: "name' = name" "st' = st\<lparr>samples := samples st'\<rparr>"
    "prefix (samples st) (samples st')"
    by (simp_all add: fit_only_def a b)
  have "frame_ok st (st\<lparr>samples := samples st'\<rparr>)"
    using eq(3) by (simp add: frame_ok_def)
  with eq(1,2) show ?thesis by (simp add: same_family_def a b)
qed

lemma same_family_trans: "same_family a b \<Longrightarrow> same_family b c \<Longrightarrow> same_family a c"
  by (auto simp: same_family_def intro: frame_ok_trans)

lemma same_family_trans_list:
  "list_all2 same_family xs ys \<Longrightarrow> list_all2 same_family ys zs \<Longrightarrow> list_all2 same_family xs zs"
  by (rule list_all2_trans [of same_family same_family same_family])
     (auto intro: same_family_trans)

lemma compute_topic_stability_frame:
  assumes "compute_topic_stability E self = (r, self')"
  shows "list_all2 same_family (models self) (models self') \<and>
         self' = self\<lparr>models := models self'\<rparr>"
proof -
  obtain r1 ms where s: "stability_models E (n_relevant_top_words self) (models self) = (r1, ms)"
    by (cases "stability_models E (n_relevant_top_words self) (models self)")
  with assms have "self' = self\<lparr>models := ms\<rparr>" by (simp add: compute_topic_stability_def)
  with stability_models_frame [OF s] show ?thesis by simp
qed


text \<open>
  C10: whatever \<open>fit_models\<close> does (it returns, or raises from the fit capability or from
  the stability computation it calls), the object differs from the one before the call at
  most in \<open>models\<close>; the families are the same, in the same order, and in every context
  \<open>params\<close>, \<open>sampling\<close>, \<open>n_samples\<close> and \<open>data\<close> are unchanged while \<open>samples\<close>,
  \<open>topic_terms\<close>, \<open>report\<close> and \<open>report_full\<close> have only been appended to.
\<close>

theorem fit_models_frame:
  assumes "fit_models F E self w = (r, self', w')"
  shows "list_all2 same_family (models self) (models self') \<and>
         self' = self\<lparr>models := models self'\<rparr>"
proof -
  obtain r1 ms w1 where fa: "fit_all F (n_iterations self) (models self) w = (r1, ms, w1)"
    by (cases "fit_all F (n_iterations self) (models self) w")
  from fit_all_progress [OF fa] have "list_all2 (fit_only (n_iterations self)) (models self) ms"
    by simp
  then have f1: "list_all2 same_family (models self) ms"
    by (rule list_all2_mono) (rule fit_only_same_family)
  show ?thesis
  proof (cases r1)
    case (Some e)
    with fa assms have "self' = self\<lparr>models := ms\<rparr>" by (simp add: fit_models_def)
    with f1 show ?thesis by simp
  next
    case None
    obtain r2 s2 where c: "compute_topic_stability E (self\<lparr>models := ms\<rparr>) = (r2, s2)"
      by (cases "compute_topic_stability E (self\<lparr>models := ms\<rparr>)")
    with None fa assms have eq: "self' = s2" by (simp add: fit_models_def)
    from compute_topic_stability_frame [OF c]
    have "list_all2 same_family ms (models s2)" "s2 = self\<lparr>models := ms\<rparr>\<lparr>models := models s2\<rparr>"
      by simp_all
    with f1 eq show ?thesis by (auto intro: same_family_trans_list)
  qed
qed


theorem fit_models_frame_witness:
  "fit_models ex_fit ex_lib (ex_loaded [[(''n_components'', VInt 2)]]) 0 = (None, ex_fitted, 2) \<and>
   list_all2 same_family (models (ex_loaded [[(''n_components'', VInt 2)]])) (models ex_fitted) \<and>
   ex_fitted = (ex_loaded [[(''n_components'', VInt 2)]])\<lparr>models := models ex_fitted\<rparr>"
  using fit_models_frame [OF ex_fit_models] ex_fit_models by blast

subsection \<open>Fitting: when the fit capability raises\<close>

lemma all_fitted_append:
  "all_fitted F (xs @ ys) w =
     (case all_fitted F xs w of
        None \<Rightarrow> None
      | Some (a, w1) \<Rightarrow>
          (case all_fitted F ys w1 of None \<Rightarrow> None | Some (b, w2) \<Rightarrow> Some (a @ b, w2)))"
  by (induction xs arbitrary: w) (auto split: prod.splits sum.splits option.splits)

lemma all_fitted_length: "all_fitted F xs w = Some (ok, w') \<Longrightarrow> length ok = length xs"
  by (induction xs arbitrary: w ok) (auto split: prod.splits sum.splits option.splits)

lemma known_name: "0 < run_count n_it name \<Longrightarrow> name = ''sklearn_lda'' \<or> name = ''sklearn_nmf''"
  by (auto simp: run_count_def split: if_splits)

lemma fit_iteration_call:
  assumes "name = ''sklearn_lda'' \<or> name = ''sklearn_nmf''"
  shows "fit_iteration F name c d acc w =
     (case fit_call F (name, c, d) w of
        (Inl e, w') \<Rightarrow> (Inl e, w')
      | (Inr m, w') \<Rightarrow> (Inr (acc @ [m]), w'))"
  using assms by (auto simp: fit_iteration_def fit_call_def split: prod.splits sum.splits)

lemma fit_iterations_ok:
  assumes "name = ''sklearn_lda'' \<or> name = ''sklearn_nmf''"
    and "all_fitted F (replicate (length its) (name, c, d)) w = Some (ok, w1)"
  shows "fit_iterations F name c d its acc w = (Inr (acc @ ok), w1)"
  using assms(2)
proof (induction its arbitrary: acc w ok)
  case Nil
  then show ?case by simp
next
  case (Cons it its)
  then show ?case
    by (auto simp: fit_iteration_call [OF assms(1)] split: prod.splits sum.splits option.splits)
qed

lemma fit_iterations_fail:
  assumes "name = ''sklearn_lda'' \<or> name = ''sklearn_nmf''"
    and "t < length its"
    and "all_fitted F (replicate t (name, c, d)) w = Some (ok, wk)"
    and "fit_call F (name, c, d) wk = (Inl e, w')"
  shows "fit_iterations F name c d its acc w = (Inl e, w')"
  using assms(2,3)
proof (induction its arbitrary: t acc w ok)
  case Nil
  then show ?case by simp
next
  case (Cons it its)
  show ?case
  proof (cases t)
    case 0
    with Cons.prems assms(4) show ?thesis
      by (simp add: fit_iteration_call [OF assms(1)])
  next
    case (Suc t')
    with Cons.prems obtain m wm ok' where
      m: "fit_call F (name, c, d) w = (Inr m, wm)"
      and r: "all_fitted F (replicate t' (name, c, d)) wm = Some (ok', wk)"
      by (auto split: prod.splits sum.splits option.splits)
    from Suc Cons.prems have "t' < length its" by simp
    from Cons.IH [OF this r] m show ?thesis
      by (simp add: fit_iteration_call [OF assms(1)])
  qed
qed

lemma fit_iterations_unknown:
  assumes "name \<noteq> ''sklearn_lda''" and "name \<noteq> ''sklearn_nmf''"
  shows "fit_iterations F name c d its acc w = (Inr acc, w)"
  using assms by (induction its arbitrary: acc w) (auto simp: fit_iteration_def)

lemma run_group_fitted:
  assumes "all_fitted F (replicate (run_count n_it name) (name, c, d)) w = Some (a, wm)"
  shows "fit_iterations F name c d [1 .. n_it] [] w = (Inr a, wm)"
proof (cases "name = ''sklearn_lda'' \<or> name = ''sklearn_nmf''")
  case True
  then have "run_count n_it name = length [1 .. n_it]" by (simp add: run_count_def)
  with assms fit_iterations_ok [OF True, of F "[1 .. n_it]" c d w a wm "[]"] show ?thesis
    by simp
next
  case False
  then have "run_count n_it name = 0" by (simp add: run_count_def)
  with assms False show ?thesis by (simp add: fit_iterations_unknown)
qed

lemma run_group_failed:
  assumes "t < run_count n_it name"
    and "all_fitted F (replicate t (name, c, d)) w = Some (ok, wk)"
    and "fit_call F (name, c, d) wk = (Inl e, w')"
  shows "fit_iterations F name c d [1 .. n_it] [] w = (Inl e, w')"
proof -
  from assms(1) have k: "name = ''sklearn_lda'' \<or> name = ''sklearn_nmf''"
    by (intro known_name [of n_it]) simp
  then have "run_count n_it name = length [1 .. n_it]" by (simp add: run_count_def)
  with assms(1) have "t < length [1 .. n_it]" by simp
  from fit_iterations_fail [OF k this assms(2,3)] show ?thesis .
qed

lemma complete_groups_append:
  "length a = r * j \<Longrightarrow> complete_groups r j (a @ b) = complete_groups r j a"
proof (induction j arbitrary: a)
  case 0
  then show ?case by simp
next
  case (Suc j)
  then have "length (drop r a) = r * j" by simp
  from Suc.IH [OF this] Suc.prems show ?case by simp
qed

lemma complete_groups_short: "length ok < r \<Longrightarrow> complete_groups r j ok = []"
  by (cases j) auto

lemma split_at_call:
  assumes "xs @ ys = pre @ x # post"
  shows "(\<exists>us. xs = pre @ x # us) \<or> (\<exists>pre'. pre = xs @ pre' \<and> ys = pre' @ x # post)"
proof -
  from assms consider us where "xs = pre @ us" "us @ ys = x # post"
    | us where "xs @ us = pre" "ys = us @ x # post"
    by (auto simp: append_eq_append_conv2)
  then show ?thesis
  proof cases
    case 1
    then show ?thesis by (cases us) auto
  next
    case 2
    then show ?thesis by auto
  qed
qed

lemma fit_samples_ok:
  assumes "all_fitted F
             (concat (map (\<lambda>sample. replicate (run_count n_it name) (name, sample, data st)) cfgs))
             w = Some (ok, w1)"
  shows "fit_samples F n_it name cfgs st w =
           (None, st\<lparr>samples := samples st @
                        complete_groups (run_count n_it name) (length cfgs) ok\<rparr>, w1)"
  using assms
proof (induction cfgs arbitrary: st w ok)
  case Nil
  then show ?case by simp
next
  case (Cons c cfgs)
  let ?r = "run_count n_it name"
  from Cons.prems obtain a wm b where
    a: "all_fitted F (replicate ?r (name, c, data st)) w = Some (a, wm)"
    and b: "all_fitted F
              (concat (map (\<lambda>sample. replicate ?r (name, sample, data st)) cfgs)) wm = Some (b, w1)"
    and ok: "ok = a @ b"
    by (auto simp: all_fitted_append split: option.splits)
  from all_fitted_length [OF a] have la: "length a = ?r" by simp
  let ?st1 = "st\<lparr>samples := samples st @ [a]\<rparr>"
  from b have "all_fitted F
              (concat (map (\<lambda>sample. replicate ?r (name, sample, data ?st1)) cfgs)) wm = Some (b, w1)"
    by simp
  from Cons.IH [OF this] run_group_fitted [OF a] la ok show ?case by simp
qed

lemma fit_samples_failed:
  assumes "concat (map (\<lambda>sample. replicate (run_count n_it name) (name, sample, data st)) cfgs)
             = pre @ x # post"
    and "all_fitted F pre w = Some (ok, wk)"
    and "fit_call F x wk = (Inl e, w')"
  shows "fit_samples F n_it name cfgs st w =
           (Some e, st\<lparr>samples := samples st @
                          complete_groups (run_count n_it name) (length cfgs) ok\<rparr>, w')"
  using assms(1,2)
proof (induction cfgs arbitrary: st w ok pre)
  case Nil
  then show ?case by simp
next
  case (Cons c cfgs)
  let ?r = "run_count n_it name"
  let ?rest = "concat (map (\<lambda>sample. replicate ?r (name, sample, data st)) cfgs)"
  from Cons.prems(1) have "replicate ?r (name, c, data st) @ ?rest = pre @ x # post" by simp
  from split_at_call [OF this]
  consider us where "replicate ?r (name, c, data st) = pre @ x # us"
    | pre' where "pre = replicate ?r (name, c, data st) @ pre'" "?rest = pre' @ x # post"
    by blast
  then show ?case
  proof cases
    case 1
    then have "length (replicate ?r (name, c, data st)) = length (pre @ x # us)"
      by (rule arg_cong)
    then have len: "length pre < ?r" by simp
    have "x \<in> set (pre @ x # us)" by simp
    then have "x \<in> set (replicate ?r (name, c, data st))" by (simp only: 1)
    then have x: "x = (name, c, data st)" by simp
    have "set pre \<subseteq> set (pre @ x # us)" by auto
    then have "set pre \<subseteq> set (replicate ?r (name, c, data st))" by (simp only: 1)
    then have pre: "replicate (length pre) (name, c, data st) = pre"
      by (intro replicate_eqI [symmetric]) auto
    from Cons.prems(2) have
      "all_fitted F (replicate (length pre) (name, c, data st)) w = Some (ok, wk)"
      by (simp only: pre)
    from run_group_failed [OF len this assms(3) [unfolded x]]
    have it: "fit_iterations F name c (data st) [1 .. n_it] [] w = (Inl e, w')" .
    from all_fitted_length [OF Cons.prems(2)] len have "length ok < ?r" by simp
    then have "complete_groups ?r (length (c # cfgs)) ok = []" by (rule complete_groups_short)
    with it show ?thesis by simp
  next
    case 2
    from Cons.prems(2) 2(1) obtain a wm b where
      a: "all_fitted F (replicate ?r (name, c, data st)) w = Some (a, wm)"
      and b: "all_fitted F pre' wm = Some (b, wk)"
      and ok: "ok = a @ b"
      by (auto simp: all_fitted_append split: option.splits)
    from all_fitted_length [OF a] have la: "length a = ?r" by simp
    let ?st1 = "st\<lparr>samples := samples st @ [a]\<rparr>"
    from 2(2) have "concat (map (\<lambda>sample. replicate ?r (name, sample, data ?st1)) cfgs)
                      = pre' @ x # post" by simp
    from Cons.IH [OF this b] run_group_fitted [OF a] la ok show ?thesis by simp
  qed
qed

lemma family_calls_length:
  "length (family_calls n_it name st) = run_count n_it name * length (sampling st)"
  by (simp add: family_calls_def length_concat comp_def sum_list_triv)

lemma fit_all_failed:
  assumes "fit_calls n_it ms = pre @ x # post"
    and "all_fitted F pre w = Some (ok, wk)"
    and "fit_call F x wk = (Inl e, w')"
  shows "fit_all F n_it ms w = (Some e, spec_stored n_it ms ok, w')"
  using assms(1,2)
proof (induction ms arbitrary: w ok pre)
  case Nil
  then show ?case by (simp add: fit_calls_def)
next
  case (Cons a ms)
  obtain name st where a: "a = (name, st)" by (cases a)
  let ?fam = "family_calls n_it name st"
  from Cons.prems(1) a have "?fam @ fit_calls n_it ms = pre @ x # post"
    by (simp add: fit_calls_def)
  from split_at_call [OF this]
  consider us where "?fam = pre @ x # us"
    | pre' where "pre = ?fam @ pre'" "fit_calls n_it ms = pre' @ x # post"
    by blast
  then show ?case
  proof cases
    case 1
    from fit_samples_failed [OF 1 [unfolded family_calls_def] Cons.prems(2) assms(3)]
    have fs: "fit_samples F n_it name (sampling st) st w =
           (Some e, st\<lparr>samples := samples st @
                          complete_groups (run_count n_it name) (length (sampling st)) ok\<rparr>, w')" .
    from 1 all_fitted_length [OF Cons.prems(2)] have "length ok < length ?fam" by simp
    with fs show ?thesis by (simp add: a)
  next
    case 2
    from Cons.prems(2) 2(1) obtain b wm c where
      b: "all_fitted F ?fam w = Some (b, wm)"
      and c: "all_fitted F pre' wm = Some (c, wk)"
      and ok: "ok = b @ c"
      by (auto simp: all_fitted_append split: option.splits)
    from all_fitted_length [OF b] have lb: "length b = length ?fam" .
    then have lb': "length b = run_count n_it name * length (sampling st)"
      by (simp add: family_calls_length)
    from fit_samples_ok [OF b [unfolded family_calls_def]]
    have fs: "fit_samples F n_it name (sampling st) st w =
           (None, st\<lparr>samples := samples st @
                        complete_groups (run_count n_it name) (length (sampling st)) b\<rparr>, wm)" .
    from Cons.IH [OF 2(2) c] have rest: "fit_all F n_it ms wm = (Some e, spec_stored n_it ms c, w')" .
    from fs rest lb ok complete_groups_append [OF lb', of c] show ?thesis
      by (simp add: a)
  qed
qed


lemma first_failure:
  assumes "all_fitted F cs w = None"
  shows "\<exists>pre x post ok wk e w'. cs = pre @ x # post \<and> all_fitted F pre w = Some (ok, wk) \<and>
           fit_call F x wk = (Inl e, w')"
  using assms
proof (induction cs arbitrary: w)
  case Nil
  then show ?case by simp
next
  case (Cons c cs)
  obtain res w1 where c: "fit_call F c w = (res, w1)" by (cases "fit_call F c w")
  show ?case
  proof (cases res)
    case (Inl e)
    with c have "c # cs = [] @ c # cs \<and> all_fitted F [] w = Some ([], w) \<and>
                 fit_call F c w = (Inl e, w1)" by simp
    then show ?thesis by blast
  next
    case (Inr m)
    with c Cons.prems have "all_fitted F cs w1 = None" by (auto split: option.splits)
    from Cons.IH [OF this] obtain pre x post ok wk e w' where
      d: "cs = pre @ x # post" "all_fitted F pre w1 = Some (ok, wk)"
         "fit_call F x wk = (Inl e, w')" by blast
    from d(1) have "c # cs = (c # pre) @ x # post" by simp
    moreover from d(2) c Inr have "all_fitted F (c # pre) w = Some (m # ok, wk)" by simp
    ultimately show ?thesis using d(3) by blast
  qed
qed

lemma fit_all_ok:
  assumes "all_fitted F (fit_calls n_it ms) w = Some (ok, w1)"
  shows "fit_all F n_it ms w = (None, spec_stored n_it ms ok, w1)"
  using assms
proof (induction ms arbitrary: w ok)
  case Nil
  then show ?case by (simp add: fit_calls_def)
next
  case (Cons a ms)
  obtain name st where a: "a = (name, st)" by (cases a)
  let ?fam = "family_calls n_it name st"
  from Cons.prems a obtain b wm c where
    b: "all_fitted F ?fam w = Some (b, wm)"
    and c: "all_fitted F (fit_calls n_it ms) wm = Some (c, w1)"
    and ok: "ok = b @ c"
    by (auto simp: fit_calls_def all_fitted_append split: option.splits)
  from all_fitted_length [OF b] have lb: "length b = length ?fam" .
  then have lb': "length b = run_count n_it name * length (sampling st)"
    by (simp add: family_calls_length)
  from fit_samples_ok [OF b [unfolded family_calls_def]]
  have fs: "fit_samples F n_it name (sampling st) st w =
         (None, st\<lparr>samples := samples st @
                      complete_groups (run_count n_it name) (length (sampling st)) b\<rparr>, wm)" .
  from Cons.IH [OF c] have rest: "fit_all F n_it ms wm = (None, spec_stored n_it ms c, w1)" .
  from fs rest lb ok complete_groups_append [OF lb', of c] show ?case
    by (simp add: a)
qed

text \<open>
  The two cases cover every run of the fitting loops: they raise exactly when some call of
  the sequence raises (and then the first such call is the \<open>x\<close> of \<open>first_failure\<close>).
\<close>

lemma fit_raises_iff:
  "(\<exists>e ms w'. fit_all F (n_iterations self) (models self) w = (Some e, ms, w')) =
   (all_fitted F (fit_calls (n_iterations self) (models self)) w = None)"
proof (cases "all_fitted F (fit_calls (n_iterations self) (models self)) w")
  case None
  from first_failure [OF None] obtain pre x post ok wk e w' where
    "fit_calls (n_iterations self) (models self) = pre @ x # post"
    "all_fitted F pre w = Some (ok, wk)" "fit_call F x wk = (Inl e, w')" by blast
  from fit_all_failed [OF this] None show ?thesis by simp
next
  case (Some r)
  obtain ok w1 where "r = (ok, w1)" by (cases r)
  with Some fit_all_ok [of F "n_iterations self" "models self" w ok w1] show ?thesis by simp
qed

text \<open>
  C2 (as the code behaves): when the fit capability trains the models \<open>ok\<close> on every call
  before the call \<open>x\<close> and raises \<open>e\<close> on \<open>x\<close>, \<open>fit_models\<close> raises \<open>e\<close> to its caller and
  leaves the world as the failing call left it. In the object only \<open>models\<close> has changed, and
  there only \<open>samples\<close>: every configuration fitted completely before the failure has its
  complete run-group appended, in order, and the configuration being fitted has none
  (\<open>spec_stored\<close>). The stability computation is not reached, so the call adds no entry to
  \<open>report\<close>, \<open>report_full\<close> or \<open>topic_terms\<close>, for any configuration.
\<close>

theorem fit_failure_outcome:
  assumes "fit_calls (n_iterations self) (models self) = pre @ x # post"
    and "all_fitted F pre w = Some (ok, wk)"
    and "fit_call F x wk = (Inl e, w')"
  shows "fit_models F E self w =
           (Some e, self\<lparr>models := spec_stored (n_iterations self) (models self) ok\<rparr>, w')"
  using fit_all_failed [OF assms] by (simp add: fit_models_def)

theorem fit_failure_outcome_witness:
  "fit_models ex_fit ex_lib
     (ex_loaded [[(''n_components'', VInt 2)], [(''n_components'', VInt 2)]]) 0 =
     (Some (Raised ''fit failed''),
      (ex_loaded [[(''n_components'', VInt 2)], [(''n_components'', VInt 2)]])
        \<lparr>models := spec_stored
           (n_iterations (ex_loaded [[(''n_components'', VInt 2)], [(''n_components'', VInt 2)]]))
           (models (ex_loaded [[(''n_components'', VInt 2)], [(''n_components'', VInt 2)]]))
           [ex_model, ex_model, ex_model]\<rparr>, 4) \<and>
   spec_stored
     (n_iterations (ex_loaded [[(''n_components'', VInt 2)], [(''n_components'', VInt 2)]]))
     (models (ex_loaded [[(''n_components'', VInt 2)], [(''n_components'', VInt 2)]]))
     [ex_model, ex_model, ex_model] =
     [(''sklearn_lda'',
       ex_settings [[(''n_components'', VInt 2)], [(''n_components'', VInt 2)]]
         [[ex_model, ex_model]])]"
proof -
  have h1: "fit_calls
          (n_iterations (ex_loaded [[(''n_components'', VInt 2)], [(''n_components'', VInt 2)]]))
          (models (ex_loaded [[(''n_components'', VInt 2)], [(''n_components'', VInt 2)]])) =
        [(''sklearn_lda'', [(''n_components'', VInt 2)], ()),
         (''sklearn_lda'', [(''n_components'', VInt 2)], ()),
         (''sklearn_lda'', [(''n_components'', VInt 2)], ())] @
        (''sklearn_lda'', [(''n_components'', VInt 2)], ()) # []"
    by code_simp
  have h2: "all_fitted ex_fit
          [(''sklearn_lda'', [(''n_components'', VInt 2)], ()),
           (''sklearn_lda'', [(''n_components'', VInt 2)], ()),
           (''sklearn_lda'', [(''n_components'', VInt 2)], ())] 0 =
        Some ([ex_model, ex_model, ex_model], 3)"
    by code_simp
  have h3: "fit_call ex_fit (''sklearn_lda'', [(''n_components'', VInt 2)], ()) 3 =
        (Inl (Raised ''fit failed''), 4)"
    by code_simp
  have s: "spec_stored
     (n_iterations (ex_loaded [[(''n_components'', VInt 2)], [(''n_components'', VInt 2)]]))
     (models (ex_loaded [[(''n_components'', VInt 2)], [(''n_components'', VInt 2)]]))
     [ex_model, ex_model, ex_model] =
     [(''sklearn_lda'',
       ex_settings [[(''n_components'', VInt 2)], [(''n_components'', VInt 2)]]
         [[ex_model, ex_model]])]"
    by code_simp
  from fit_failure_outcome [OF h1 h2 h3, of ex_lib] s show ?thesis by blast
qed

text \<open>
  The claim C2 as stated fails in its last part: with two configurations and two iterations,
  the fit capability raising on its fourth call, the first configuration has been processed
  and its run-group is stored, but it has no entry in the report set.
\<close>

theorem fit_failure_no_report_counterexample:
  "(case fit_models ex_fit ex_lib
           (ex_loaded [[(''n_components'', VInt 2)], [(''n_components'', VInt 2)]]) 0 of
      (r, self', w') \<Rightarrow>
        r = Some (Raised ''fit failed'') \<and>
        map (\<lambda>(name, st). (samples st, report st)) (models self') = [([[ex_model, ex_model]], [])])"
  by code_simp

subsection \<open>Run-groups with fewer than two runs\<close>

lemma mapM_e_length: "mapM_e f xs = Inr ys \<Longrightarrow> length ys = length xs"
  by (induction xs arbitrary: ys) (auto simp: bind_e_def split: sum.splits)

lemma mapM_e_set:
  "mapM_e f xs = Inr ys \<Longrightarrow> y \<in> set ys \<Longrightarrow> \<exists>x \<in> set xs. f x = Inr y"
  by (induction xs arbitrary: ys) (auto simp: bind_e_def split: sum.splits)

lemma pairs_short: "length X < 2 \<Longrightarrow> pairs X = []"
  by (cases X; cases "tl X") auto

lemma pdist_short: "length X < 2 \<Longrightarrow> pdist X f = Inr []"
  by (simp add: pdist_def pairs_short)

lemma evaluate_topic_short:
  assumes "length terms < 2"
    and "evaluate_topic E terms td rv sid topic = Inr (sim, jen, wasser, ken, spe)"
  shows "sim = []"
proof -
  from assms(2) obtain ta X where ta: "np_array3 terms = Inr ta"
    and X: "slice_topic ta topic = Inr X" and p: "pdist X jaccard_similarity = Inr sim"
    by (auto simp: evaluate_topic_def bind_e_def split: sum.splits)
  from ta have "ta = terms" by (auto simp: np_array3_def split: if_splits)
  with X have "length X = length terms" by (auto simp: slice_topic_def dest: mapM_e_length)
  with assms(1) p show ?thesis by (simp add: pdist_short)
qed

lemma summary_no_pairs:
  assumes "\<forall>row \<in> set A. row = []"
  shows "\<exists>e. summary E A = Inl e"
proof (cases A)
  case Nil
  then show ?thesis by (simp add: summary_def mean_axis1_def bind_e_def)
next
  case (Cons row rows)
  with assms have "row = []" by simp
  with Cons have "min_axis1 A = Inl ValueError"
    by (simp add: min_axis1_def np_min_def bind_e_def)
  with Cons show ?thesis
    by (simp add: summary_def mean_axis1_def std_axis1_def bind_e_def)
qed

lemma make_reports_no_pairs:
  assumes "\<forall>row \<in> set rows. fst row = []"
  shows "\<exists>e. make_reports E name sid n sampl rows = Inl e"
proof -
  have eq: "map (\<lambda>(sim, jen, wasser, ken, spe). sim) rows = map fst rows"
    by (rule map_cong) auto
  from assms have "\<forall>row \<in> set (map fst rows). row = []" by simp
  from summary_no_pairs [OF this] obtain e where "summary E (map fst rows) = Inl e" ..
  then show ?thesis
    by (cases "nth_e sampl sid") (simp_all add: make_reports_def eq bind_e_def Let_def)
qed

lemma stability_sample_short:
  assumes "length sample < 2"
  shows "\<exists>e. fst (stability_sample E k name rv sid sample st) = Some e"
    and "report (snd (stability_sample E k name rv sid sample st)) = report st"
    and "report_full (snd (stability_sample E k name rv sid sample st)) = report_full st"
proof -
  let ?terms = "map (\<lambda>m. get_top_terms E m k) sample"
  let ?td = "map (\<lambda>m. normalize_rows (components m)) sample"
  have fail: "\<exists>e. bind_e (mapM_e (evaluate_topic E ?terms ?td rv sid) ts)
                    (make_reports E name sid n sampl) = Inl e" for ts n sampl
  proof (cases "mapM_e (evaluate_topic E ?terms ?td rv sid) ts")
    case (Inl e)
    then show ?thesis by (simp add: bind_e_def)
  next
    case (Inr rows)
    have "\<forall>row \<in> set rows. fst row = []"
    proof
      fix row assume "row \<in> set rows"
      from mapM_e_set [OF Inr this] obtain t where
        t: "evaluate_topic E ?terms ?td rv sid t = Inr row" by blast
      obtain sim jen wasser ken spe where row: "row = (sim, jen, wasser, ken, spe)"
        by (cases row)
      from assms have "length ?terms < 2" by simp
      from evaluate_topic_short [OF this t [unfolded row]] row show "fst row = []" by simp
    qed
    from make_reports_no_pairs [OF this] Inr show ?thesis by (simp add: bind_e_def)
  qed
  show "\<exists>e. fst (stability_sample E k name rv sid sample st) = Some e"
    using fail
    apply (simp add: stability_sample_def Let_def split: sum.splits prod.splits)
    apply (metis Inl_Inr_False)
    done
  show "report (snd (stability_sample E k name rv sid sample st)) = report st"
    using fail
    apply (simp add: stability_sample_def Let_def split: sum.splits prod.splits)
    apply (metis Inl_Inr_False)
    done
  show "report_full (snd (stability_sample E k name rv sid sample st)) = report_full st"
    using fail
    apply (simp add: stability_sample_def Let_def split: sum.splits prod.splits)
    apply (metis Inl_Inr_False)
    done
qed

lemma stability_samples_short:
  assumes "(sid, g) \<in> set xs" and "length g < 2"
  shows "\<exists>e. fst (stability_samples E k name rv xs st) = Some e"
  using assms(1)
proof (induction xs arbitrary: st)
  case Nil
  then show ?case by simp
next
  case (Cons x xs)
  obtain i sample where x: "x = (i, sample)" by (cases x)
  obtain r1 st1 where b: "stability_sample E k name rv i sample st = (r1, st1)"
    by (cases "stability_sample E k name rv i sample st")
  show ?case
  proof (cases r1)
    case (Some e)
    with x b show ?thesis by simp
  next
    case None
    have "(sid, g) \<noteq> x"
    proof
      assume "(sid, g) = x"
      with x have "sample = g" "i = sid" by simp_all
      with stability_sample_short(1) [OF assms(2), of E k name rv sid st] b None
      show False by simp
    qed
    with Cons.prems have "(sid, g) \<in> set xs" by simp
    from Cons.IH [OF this, of st1] x b None show ?thesis by simp
  qed
qed

lemma enumerate_member:
  "g \<in> set xs \<Longrightarrow> \<exists>i. (i, g) \<in> set (zip [0 ..< length xs] xs)"
proof -
  assume "g \<in> set xs"
  then obtain i where i: "i < length xs" "xs ! i = g" by (auto simp: in_set_conv_nth)
  then have "zip [0 ..< length xs] xs ! i = (i, g)" by simp
  moreover have "i < length (zip [0 ..< length xs] xs)" using i by simp
  ultimately have "(i, g) \<in> set (zip [0 ..< length xs] xs)" by (metis nth_mem)
  then show ?thesis ..
qed

lemma stability_models_short:
  assumes "(name, st0) \<in> set ms" and "g \<in> set (samples st0)" and "length g < 2"
  shows "\<exists>e. fst (stability_models E k ms) = Some e"
  using assms(1)
proof (induction ms)
  case Nil
  then show ?case by simp
next
  case (Cons a ms)
  obtain n st where a: "a = (n, st)" by (cases a)
  show ?case
  proof (cases "create_ranking_vectors E k st")
    case (Inl e)
    with a show ?thesis by simp
  next
    case (Inr rv)
    obtain r1 st1 where b:
      "stability_samples E k n rv (zip [0 ..< length (samples st)] (samples st)) st = (r1, st1)"
      by (cases "stability_samples E k n rv (zip [0 ..< length (samples st)] (samples st)) st")
    show ?thesis
    proof (cases r1)
      case (Some e)
      with a Inr b show ?thesis by simp
    next
      case None
      have "(name, st0) \<noteq> a"
      proof
        assume "(name, st0) = a"
        with a have eq: "st = st0" by simp
        from enumerate_member [OF assms(2)] obtain i where
          "(i, g) \<in> set (zip [0 ..< length (samples st0)] (samples st0))" ..
        from stability_samples_short [OF this assms(3), of E k n rv st0] b None eq
        show False by simp
      qed
      with Cons.prems have "(name, st0) \<in> set ms" by simp
      from Cons.IH [OF this] obtain e where e: "fst (stability_models E k ms) = Some e" ..
      then show ?thesis using a Inr b None
        by (cases "stability_models E k ms") auto
    qed
  qed
qed


text \<open>
  C6: when some context holds a run-group with fewer than two runs, the stability
  computation raises; and the body that computes the report of such a run-group, from any
  state, raises and appends nothing to \<open>report\<close> or \<open>report_full\<close>. (The errors are those of
  the subscript \<open>sample[0]\<close> on an empty run-group and of numpy's reductions over zero pairs;
  the source has no check of its own.)
\<close>

theorem short_run_group_fails:
  assumes "(name, st0) \<in> set (models self)" and "g \<in> set (samples st0)" and "length g < 2"
  shows "(\<exists>e. fst (compute_topic_stability E self) = Some e) \<and>
         (\<forall>rv sid st.
            (\<exists>e. fst (stability_sample E (n_relevant_top_words self) name rv sid g st) = Some e) \<and>
            report (snd (stability_sample E (n_relevant_top_words self) name rv sid g st)) = report st \<and>
            report_full (snd (stability_sample E (n_relevant_top_words self) name rv sid g st)) =
              report_full st)"
proof -
  from stability_models_short [OF assms] obtain e where
    "fst (stability_models E (n_relevant_top_words self) (models self)) = Some e" ..
  then have "fst (compute_topic_stability E self) = Some e"
    by (cases "stability_models E (n_relevant_top_words self) (models self)")
       (simp add: compute_topic_stability_def)
  with stability_sample_short [OF assms(3)] show ?thesis by blast
qed


theorem short_run_group_fails_witness:
  "fst (compute_topic_stability ex_lib ex_single) = Some ValueError \<and>
   report (snd (stability_sample ex_lib (n_relevant_top_words ex_single) ''sklearn_lda'' [] 0
                  [ex_model] (ex_settings [] [[ex_model]]))) = [] \<and>
   fst (compute_topic_stability ex_lib (ex_single\<lparr>models :=
          [(''sklearn_lda'', ex_settings [[(''n_components'', VInt 2)]] [[]])]\<rparr>)) = Some IndexError"
proof -
  have h1: "(''sklearn_lda'', ex_settings [[(''n_components'', VInt 2)]] [[ex_model]])
              \<in> set (models ex_single)"
    by (simp add: ex_single_def)
  have h2: "[ex_model] \<in> set (samples (ex_settings [[(''n_components'', VInt 2)]] [[ex_model]]))"
    by (simp add: ex_settings_def)
  have h3: "length [ex_model] < 2" by simp
  have c1: "fst (compute_topic_stability ex_lib ex_single) = Some ValueError" by code_simp
  have c2: "fst (compute_topic_stability ex_lib (ex_single\<lparr>models :=
          [(''sklearn_lda'', ex_settings [[(''n_components'', VInt 2)]] [[]])]\<rparr>)) = Some IndexError"
    by code_simp
  have c3: "report (ex_settings [] [[ex_model]]) = []" by (simp add: ex_settings_def)
  from short_run_group_fails [OF h1 h2 h3, of ex_lib] c1 c2 c3 show ?thesis by metis
qed

end
